theory Spec2Isabelle
  imports Complex_Main "HOL-Library.Product_Lexorder"
begin

section \<open>Strings\<close>

text \<open>
  A JavaScript string is modelled as a \<^typ>\<open>string\<close>: a list of code units in the range
  0..255 (ASCII and Latin-1). The built-ins used by the routes are written out on that
  range: the regular-expression classes \<open>\s\<close> and \<open>[a-zA-Z0-9]\<close>, \<open>toLowerCase\<close>,
  \<open>trim\<close>, \<open>split(' ')\<close>.
\<close>

definition is_space :: "char \<Rightarrow> bool" where
  \<comment> \<open>the class \<open>\s\<close>: TAB, LF, VT, FF, CR, SPACE, NBSP\<close>
  "is_space c = (of_char c \<in> {9, 10, 11, 12, 13, 32, 160 :: nat})"

definition is_alnum :: "char \<Rightarrow> bool" where
  \<comment> \<open>the class \<open>[a-zA-Z0-9]\<close>\<close>
  "is_alnum c = (let n = of_char c :: nat in
     (97 \<le> n \<and> n \<le> 122) \<or> (65 \<le> n \<and> n \<le> 90) \<or> (48 \<le> n \<and> n \<le> 57))"

definition is_hex :: "char \<Rightarrow> bool" where
  \<comment> \<open>the class \<open>[0-9a-fA-F]\<close>\<close>
  "is_hex c = (let n = of_char c :: nat in
     (48 \<le> n \<and> n \<le> 57) \<or> (97 \<le> n \<and> n \<le> 102) \<or> (65 \<le> n \<and> n \<le> 70))"

definition toLowerCase_char :: "char \<Rightarrow> char" where
  \<comment> \<open>A..Z and the Latin-1 capitals (0xC0..0xDE without the multiplication sign)\<close>
  "toLowerCase_char c = (let n = of_char c :: nat in
     if (65 \<le> n \<and> n \<le> 90) \<or> (192 \<le> n \<and> n \<le> 222 \<and> n \<noteq> 215)
     then char_of (n + 32) else c)"

definition toLowerCase :: "string \<Rightarrow> string" where
  "toLowerCase s = map toLowerCase_char s"

definition trim :: "string \<Rightarrow> string" where
  "trim s = rev (dropWhile is_space (rev (dropWhile is_space s)))"

text \<open>\<open>s.replace(/\s+/g, '-')\<close>: every maximal run of whitespace becomes one hyphen.\<close>

function collapse_spaces :: "string \<Rightarrow> string" where
  "collapse_spaces [] = []"
| "collapse_spaces (c # cs) =
     (if is_space c then CHR ''-'' # collapse_spaces (dropWhile is_space cs)
      else c # collapse_spaces cs)"
  by pat_completeness auto
termination
  by (relation "measure length") (auto simp: le_imp_less_Suc length_dropWhile_le)

text \<open>
  The slug expression of \<open>router.post('/')\<close> and \<open>router.put('/:id')\<close>:
  \<^verbatim>\<open>title.toLowerCase().replace(/[^a-zA-Z0-9\s]/g, '').replace(/\s+/g, '-').substring(0, 50)\<close>
\<close>

definition slugify :: "string \<Rightarrow> string" where
  "slugify t =
     take 50 (collapse_spaces (filter (\<lambda>c. is_alnum c \<or> is_space c) (toLowerCase t)))"

text \<open>\<open>s.split(' ')\<close>: the pieces between single space characters, empty pieces included.\<close>

fun split_space :: "string \<Rightarrow> string list" where
  "split_space [] = [[]]"
| "split_space (c # cs) =
     (if c = CHR '' '' then [] # split_space cs
      else (case split_space cs of w # ws \<Rightarrow> (c # w) # ws | [] \<Rightarrow> [[c]]))"

section \<open>Numbers\<close>

text \<open>
  A JavaScript Number is a double. The counters hold integers, and the sum of two of them
  is the double nearest to the exact sum: an integer of magnitude up to \<open>2^53\<close> is a
  double, a larger one is rounded to 53 significant bits, a tie to the even significand.
  Sums beyond the largest finite double, which are \<open>Infinity\<close> in JavaScript, are outside
  this model.
\<close>

fun bit_length :: "nat \<Rightarrow> nat" where
  "bit_length n = (if n = 0 then 0 else Suc (bit_length (n div 2)))"

declare bit_length.simps [simp del]

definition to_double :: "int \<Rightarrow> int" where
  "to_double x =
     (let a = \<bar>x\<bar>
      in if a \<le> 2 ^ 53 then x
         else
           (let ulp = 2 ^ (bit_length (nat a) - 53);
                q = a div ulp;
                r = a mod ulp;
                m = (if 2 * r < ulp \<or> (2 * r = ulp \<and> even q) then q * ulp else (q + 1) * ulp)
            in sgn x * m))"

definition js_plus :: "int \<Rightarrow> int \<Rightarrow> int" where
  \<comment> \<open>\<open>a + b\<close> on Numbers that hold integers\<close>
  "js_plus a b = to_double (a + b)"

section \<open>Data model\<close>

type_synonym oid = string
  \<comment> \<open>an ObjectId, as its canonical 24-digit lower-case hexadecimal string\<close>
type_synonym time = int
  \<comment> \<open>a Date, in milliseconds since the epoch\<close>

datatype error =
    ValidationFailed  \<comment> \<open>400 with field errors, 400 'Invalid bulk operation data'\<close>
  | DuplicateSlug     \<comment> \<open>400 'A blog with similar title already exists'\<close>
  | NotFound          \<comment> \<open>404 'Blog not found'\<close>
  | Forbidden         \<comment> \<open>403\<close>
  | Unauthorized      \<comment> \<open>401\<close>
  | InvalidAction     \<comment> \<open>400 'Invalid bulk action'\<close>
  | StoreFailure      \<comment> \<open>500 'Server error' (the catch block)\<close>

record image =
  url :: string
  alt :: string
  caption :: string

record geo =
  country :: string
  city :: string
  coordinates :: "(real \<times> real) option"

datatype seo_key = MetaTitle | MetaDescription | Keywords | CanonicalUrl

datatype seo_value = Text string | TextList "string list"

type_synonym seo_block = "seo_key \<rightharpoonup> seo_value"

record blog_stats =
  views :: int
  likes :: int
  shares :: int
  comments :: int

record blog =
  blog_id :: oid
  title :: string
  slug :: string
  content :: string
  excerpt :: string
  featuredImage :: "image option"
  images :: "image list"
  author :: oid
  category :: string
  tags :: "string list"
  location :: "geo option"
  seo :: seo_block
  status :: string
  publishedAt :: "time option"
  scheduledAt :: "time option"
  stats :: blog_stats
  readingTime :: int
  featured :: bool
  createdAt :: time
  updatedAt :: time

text \<open>Of the user schema, the fields the blog routes read or write.\<close>

record user =
  user_id :: oid
  username :: string
  email :: string
  role :: string
  postsCount :: int
  viewsCount :: int
  likesCount :: int
  isActive :: bool

record store =
  blogs :: "blog list"
  users :: "user list"

text \<open>
  The request body of create and update. A field is \<open>None\<close> when the JSON body does not
  have it (\<open>undefined\<close> after destructuring); \<open>scheduledAt\<close> is the parsed date.
\<close>

record blog_body =
  req_title :: "string option"
  req_content :: "string option"
  req_excerpt :: "string option"
  req_category :: "string option"
  req_tags :: "string list option"
  req_location :: "geo option"
  req_seo :: "seo_block option"
  req_featuredImage :: "image option"
  req_images :: "image list option"
  req_status :: "string option"
  req_featured :: "bool option"
  req_scheduledAt :: "time option"

section \<open>The blog schema\<close>

definition categories :: "string list" where
  "categories = [''Adventure'', ''Culture'', ''Food'', ''Nature'', ''City'', ''Beach'',
     ''Mountain'', ''Historical'']"

definition statuses :: "string list" where
  "statuses = [''draft'', ''published'', ''scheduled'', ''archived'']"

text \<open>
  The validators of \<open>blogSchema\<close> (\<open>required\<close>, \<open>maxlength\<close>, \<open>enum\<close>), which
  \<open>save()\<close> runs before the \<open>pre('save')\<close> hook; a failure is thrown and ends in the
  route's catch block.
\<close>

definition schema_valid :: "blog \<Rightarrow> bool" where
  "schema_valid b =
     (title b \<noteq> [] \<and> length (title b) \<le> 200 \<and> slug b \<noteq> [] \<and> content b \<noteq> [] \<and>
      excerpt b \<noteq> [] \<and> length (excerpt b) \<le> 300 \<and> category b \<in> set categories \<and>
      status b \<in> set statuses)"

definition wordsPerMinute :: nat where
  "wordsPerMinute = 200"

definition wordCount :: "string \<Rightarrow> nat" where
  "wordCount c = length (split_space c)"

text \<open>
  \<open>blogSchema.pre('save')\<close>. \<open>contentModified\<close> is \<open>this.isModified('content')\<close>.
\<close>

definition pre_save :: "time \<Rightarrow> bool \<Rightarrow> blog \<Rightarrow> blog" where
  "pre_save now contentModified b =
     (let b = (if contentModified
               then b\<lparr>readingTime := \<lceil>real (wordCount (content b)) / real wordsPerMinute\<rceil>\<rparr>
               else b)
      in b\<lparr>updatedAt := now\<rparr>)"

text \<open>
  \<open>doc.isModified('content')\<close>. \<open>orig\<close> is the document as it was loaded, \<open>None\<close> for a
  new document: the path is modified in a new document, and in a loaded one when it was
  set to a different value.
\<close>

definition isModified_content :: "blog option \<Rightarrow> blog \<Rightarrow> bool" where
  "isModified_content orig b =
     (case orig of None \<Rightarrow> True | Some old \<Rightarrow> content b \<noteq> content old)"

text \<open>
  \<open>doc.save()\<close>: validation, the \<open>pre('save')\<close> hook, then the write. A new document is
  inserted, a loaded one is written back under its \<open>_id\<close>.
\<close>

definition save :: "time \<Rightarrow> blog option \<Rightarrow> blog \<Rightarrow> store \<Rightarrow> (blog \<times> store) option" where
  "save now orig b s =
     (if \<not> schema_valid b then None
      else
        (let b' = pre_save now (isModified_content orig b) b
         in case orig of
              None \<Rightarrow> Some (b', s\<lparr>blogs := blogs s @ [b']\<rparr>)
            | Some old \<Rightarrow>
                Some (b', s\<lparr>blogs := map (\<lambda>x. if blog_id x = blog_id b' then b' else x) (blogs s)\<rparr>)))"

section \<open>Access control\<close>

definition role_rank :: "string \<Rightarrow> nat" where
  \<comment> \<open>Modelled from the spec: the privilege order subscriber < author < editor < admin of
      the \<open>middleware/auth\<close> module, which is not among the sources.\<close>
  "role_rank r =
     (if r = ''admin'' then 3 else if r = ''editor'' then 2 else if r = ''author'' then 1 else 0)"

definition gate :: "string \<Rightarrow> user option \<Rightarrow> error + user" where
  \<comment> \<open>Modelled from the spec: the access-control gate of \<open>middleware/auth\<close> (not among the
      sources) resolves the credential to an identity or fails, and rejects a caller below
      the minimum role. \<open>None\<close> is a request without a valid credential.\<close>
  "gate minRole caller =
     (case caller of
        None \<Rightarrow> Inl Unauthorized
      | Some u \<Rightarrow> if role_rank (role u) < role_rank minRole then Inl Forbidden else Inr u)"

definition editorAuth :: "user option \<Rightarrow> error + user" where
  "editorAuth = gate ''editor''"

definition adminAuth :: "user option \<Rightarrow> error + user" where
  "adminAuth = gate ''admin''"

section \<open>The blog routes\<close>

subsection \<open>GET /:identifier\<close>

definition is_objectid :: "string \<Rightarrow> bool" where
  \<comment> \<open>\<open>identifier.match(/^[0-9a-fA-F]{24}$/)\<close>\<close>
  "is_objectid s = (length s = 24 \<and> list_all is_hex s)"

definition identifier_query :: "string \<Rightarrow> blog \<Rightarrow> bool" where
  \<comment> \<open>\<open>{ _id: identifier }\<close> (cast to an ObjectId, so the hex digits match in either case)
      or \<open>{ slug: identifier }\<close> (cast through the schema's \<open>lowercase\<close> setter)\<close>
  "identifier_query identifier =
     (if is_objectid identifier then (\<lambda>b. blog_id b = toLowerCase identifier)
      else (\<lambda>b. slug b = toLowerCase identifier))"

definition get_blog :: "time \<Rightarrow> string \<Rightarrow> store \<Rightarrow> (error + blog) \<times> store" where
  "get_blog now identifier s =
     (case find (identifier_query identifier) (blogs s) of
        None \<Rightarrow> (Inl NotFound, s)
      | Some blog \<Rightarrow>
          (case save now (Some blog)
                  (blog\<lparr>stats := (stats blog)\<lparr>views := js_plus (views (stats blog)) 1\<rparr>\<rparr>) s of
             None \<Rightarrow> (Inl StoreFailure, s)
           | Some (b', s') \<Rightarrow> (Inr b', s')))"

subsection \<open>POST /\<close>

definition inc_postsCount :: "oid \<Rightarrow> int \<Rightarrow> user list \<Rightarrow> user list" where
  \<comment> \<open>\<open>User.findByIdAndUpdate(id, { $inc: { 'stats.postsCount': d } })\<close>\<close>
  "inc_postsCount uid d us =
     map (\<lambda>x. if user_id x = uid then x\<lparr>postsCount := postsCount x + d\<rparr> else x) us"

definition body_valid :: "blog_body \<Rightarrow> bool" where
  \<comment> \<open>the express-validator chain: \<open>notEmpty()\<close> on title, content and excerpt,
      \<open>isIn([...])\<close> on category\<close>
  "body_valid body =
     ((case req_title body of None \<Rightarrow> False | Some t \<Rightarrow> t \<noteq> []) \<and>
      (case req_content body of None \<Rightarrow> False | Some c \<Rightarrow> c \<noteq> []) \<and>
      (case req_excerpt body of None \<Rightarrow> False | Some e \<Rightarrow> e \<noteq> []) \<and>
      (case req_category body of None \<Rightarrow> False | Some c \<Rightarrow> c \<in> set categories))"

definition new_blog :: "time \<Rightarrow> oid \<Rightarrow> oid \<Rightarrow> string \<Rightarrow> blog_body \<Rightarrow> blog" where
  \<comment> \<open>\<open>new Blog({...})\<close> with the schema's setters (\<open>trim\<close>, \<open>lowercase\<close>) and defaults\<close>
  "new_blog now newId uid slug0 body =
     (let status0 = (case req_status body of None \<Rightarrow> ''draft'' | Some x \<Rightarrow> x)
      in \<lparr> blog_id = newId,
           title = trim (case req_title body of None \<Rightarrow> [] | Some t \<Rightarrow> t),
           slug = toLowerCase slug0,
           content = (case req_content body of None \<Rightarrow> [] | Some c \<Rightarrow> c),
           excerpt = (case req_excerpt body of None \<Rightarrow> [] | Some e \<Rightarrow> e),
           featuredImage = req_featuredImage body,
           images = (case req_images body of None \<Rightarrow> [] | Some is \<Rightarrow> is),
           author = uid,
           category = (case req_category body of None \<Rightarrow> [] | Some c \<Rightarrow> c),
           tags = (case req_tags body of None \<Rightarrow> [] | Some ts \<Rightarrow> map (\<lambda>t. trim (toLowerCase t)) ts),
           location = req_location body,
           seo = (case req_seo body of None \<Rightarrow> Map.empty | Some m \<Rightarrow> m),
           status = status0,
           publishedAt = (if status0 = ''published'' then Some now else None),
           scheduledAt = req_scheduledAt body,
           stats = \<lparr> views = 0, likes = 0, shares = 0, comments = 0 \<rparr>,
           readingTime = 0,
           featured = (case req_featured body of None \<Rightarrow> False | Some f \<Rightarrow> f),
           createdAt = now,
           updatedAt = now \<rparr>)"

definition create_blog ::
    "time \<Rightarrow> oid \<Rightarrow> user option \<Rightarrow> blog_body \<Rightarrow> store \<Rightarrow> (error + blog) \<times> store" where
  "create_blog now newId caller body s =
     (case editorAuth caller of
        Inl e \<Rightarrow> (Inl e, s)
      | Inr u \<Rightarrow>
          if \<not> body_valid body then (Inl ValidationFailed, s)
          else
            (let slug0 = slugify (case req_title body of None \<Rightarrow> [] | Some t \<Rightarrow> t)
             in case find (\<lambda>b. slug b = slug0) (blogs s) of
                  Some existingBlog \<Rightarrow> (Inl DuplicateSlug, s)
                | None \<Rightarrow>
                    (case save now None (new_blog now newId (user_id u) slug0 body) s of
                       None \<Rightarrow> (Inl StoreFailure, s)
                     | Some (b', s') \<Rightarrow>
                         (Inr b', s'\<lparr>users := inc_postsCount (user_id u) 1 (users s')\<rparr>))))"

subsection \<open>PUT /:id\<close>

definition reslug :: "blog_body \<Rightarrow> blog \<Rightarrow> store \<Rightarrow> error + blog" where
  \<comment> \<open>"Update slug if title changed"\<close>
  "reslug body blog s =
     (case req_title body of
        None \<Rightarrow> Inr blog
      | Some t \<Rightarrow>
          if t \<noteq> [] \<and> t \<noteq> title blog then
            (let newSlug = slugify t
             in case find (\<lambda>x. slug x = newSlug \<and> blog_id x \<noteq> blog_id blog) (blogs s) of
                  Some existingBlog \<Rightarrow> Inl DuplicateSlug
                | None \<Rightarrow> Inr (blog\<lparr>slug := toLowerCase newSlug\<rparr>))
          else Inr blog)"

text \<open>The assignments \<open>if (x) blog.x = x\<close>, one definition per line of the source.\<close>

definition assign_title :: "blog_body \<Rightarrow> blog \<Rightarrow> blog" where
  "assign_title body blog =
     (case req_title body of
        Some t \<Rightarrow> if t \<noteq> [] then blog\<lparr>title := trim t\<rparr> else blog
      | None \<Rightarrow> blog)"

definition assign_content :: "blog_body \<Rightarrow> blog \<Rightarrow> blog" where
  "assign_content body blog =
     (case req_content body of
        Some c \<Rightarrow> if c \<noteq> [] then blog\<lparr>content := c\<rparr> else blog
      | None \<Rightarrow> blog)"

definition assign_excerpt :: "blog_body \<Rightarrow> blog \<Rightarrow> blog" where
  "assign_excerpt body blog =
     (case req_excerpt body of
        Some e \<Rightarrow> if e \<noteq> [] then blog\<lparr>excerpt := e\<rparr> else blog
      | None \<Rightarrow> blog)"

definition assign_category :: "blog_body \<Rightarrow> blog \<Rightarrow> blog" where
  "assign_category body blog =
     (case req_category body of
        Some c \<Rightarrow> if c \<noteq> [] then blog\<lparr>category := c\<rparr> else blog
      | None \<Rightarrow> blog)"

definition assign_tags :: "blog_body \<Rightarrow> blog \<Rightarrow> blog" where
  "assign_tags body blog =
     (case req_tags body of
        Some ts \<Rightarrow> blog\<lparr>tags := map (\<lambda>t. trim (toLowerCase t)) ts\<rparr>
      | None \<Rightarrow> blog)"

definition assign_location :: "blog_body \<Rightarrow> blog \<Rightarrow> blog" where
  "assign_location body blog =
     (case req_location body of Some l \<Rightarrow> blog\<lparr>location := Some l\<rparr> | None \<Rightarrow> blog)"

definition assign_seo :: "blog_body \<Rightarrow> blog \<Rightarrow> blog" where
  \<comment> \<open>\<open>blog.seo = { ...blog.seo, ...seo }\<close>\<close>
  "assign_seo body blog =
     (case req_seo body of Some m \<Rightarrow> blog\<lparr>seo := seo blog ++ m\<rparr> | None \<Rightarrow> blog)"

definition assign_featuredImage :: "blog_body \<Rightarrow> blog \<Rightarrow> blog" where
  "assign_featuredImage body blog =
     (case req_featuredImage body of
        Some i \<Rightarrow> blog\<lparr>featuredImage := Some i\<rparr>
      | None \<Rightarrow> blog)"

definition assign_images :: "blog_body \<Rightarrow> blog \<Rightarrow> blog" where
  "assign_images body blog =
     (case req_images body of Some is \<Rightarrow> blog\<lparr>images := is\<rparr> | None \<Rightarrow> blog)"

definition assign_status :: "time \<Rightarrow> blog_body \<Rightarrow> blog \<Rightarrow> blog" where
  "assign_status now body blog =
     (case req_status body of
        Some st \<Rightarrow>
          if st \<noteq> [] then
            (let blog = blog\<lparr>status := st\<rparr>
             in if st = ''published'' \<and> publishedAt blog = None
                then blog\<lparr>publishedAt := Some now\<rparr> else blog)
          else blog
      | None \<Rightarrow> blog)"

definition assign_featured :: "blog_body \<Rightarrow> blog \<Rightarrow> blog" where
  \<comment> \<open>\<open>if (featured !== undefined)\<close>\<close>
  "assign_featured body blog =
     (case req_featured body of Some f \<Rightarrow> blog\<lparr>featured := f\<rparr> | None \<Rightarrow> blog)"

definition assign_scheduledAt :: "blog_body \<Rightarrow> blog \<Rightarrow> blog" where
  "assign_scheduledAt body blog =
     (case req_scheduledAt body of
        Some d \<Rightarrow> blog\<lparr>scheduledAt := Some d\<rparr>
      | None \<Rightarrow> blog)"

definition assign_fields :: "time \<Rightarrow> blog_body \<Rightarrow> blog \<Rightarrow> blog" where
  "assign_fields now body blog =
     (let blog = assign_title body blog;
          blog = assign_content body blog;
          blog = assign_excerpt body blog;
          blog = assign_category body blog;
          blog = assign_tags body blog;
          blog = assign_location body blog;
          blog = assign_seo body blog;
          blog = assign_featuredImage body blog;
          blog = assign_images body blog;
          blog = assign_status now body blog;
          blog = assign_featured body blog;
          blog = assign_scheduledAt body blog
      in blog)"

definition update_blog ::
    "time \<Rightarrow> user option \<Rightarrow> oid \<Rightarrow> blog_body \<Rightarrow> store \<Rightarrow> (error + blog) \<times> store" where
  "update_blog now caller bid body s =
     (case editorAuth caller of
        Inl e \<Rightarrow> (Inl e, s)
      | Inr u \<Rightarrow>
          (case find (\<lambda>b. blog_id b = bid) (blogs s) of
             None \<Rightarrow> (Inl NotFound, s)
           | Some blog \<Rightarrow>
               if author blog \<noteq> user_id u \<and> role u \<noteq> ''admin'' then (Inl Forbidden, s)
               else
                 (case reslug body blog s of
                    Inl e \<Rightarrow> (Inl e, s)
                  | Inr blog1 \<Rightarrow>
                      (case save now (Some blog) (assign_fields now body blog1) s of
                         None \<Rightarrow> (Inl StoreFailure, s)
                       | Some (b', s') \<Rightarrow> (Inr b', s')))))"

subsection \<open>DELETE /:id\<close>

definition delete_blog :: "user option \<Rightarrow> oid \<Rightarrow> store \<Rightarrow> (error + unit) \<times> store" where
  "delete_blog caller bid s =
     (case editorAuth caller of
        Inl e \<Rightarrow> (Inl e, s)
      | Inr u \<Rightarrow>
          (case find (\<lambda>b. blog_id b = bid) (blogs s) of
             None \<Rightarrow> (Inl NotFound, s)
           | Some blog \<Rightarrow>
               if author blog \<noteq> user_id u \<and> role u \<noteq> ''admin'' then (Inl Forbidden, s)
               else
                 (Inr (),
                  s\<lparr>blogs := filter (\<lambda>b. blog_id b \<noteq> bid) (blogs s),
                    users := inc_postsCount (author blog) (- 1) (users s)\<rparr>)))"

subsection \<open>POST /bulk\<close>

definition deleteMany :: "oid list \<Rightarrow> blog list \<Rightarrow> blog list \<times> nat" where
  \<comment> \<open>\<open>Blog.deleteMany({ _id: { $in: ids } })\<close>: the collection left and \<open>deletedCount\<close>\<close>
  "deleteMany ids bs =
     (filter (\<lambda>b. blog_id b \<notin> set ids) bs, length (filter (\<lambda>b. blog_id b \<in> set ids) bs))"

definition updateMany :: "oid list \<Rightarrow> (blog \<Rightarrow> blog) \<Rightarrow> blog list \<Rightarrow> blog list \<times> nat" where
  \<comment> \<open>\<open>Blog.updateMany({ _id: { $in: ids } }, upd)\<close>: the collection after it and
      \<open>modifiedCount\<close>, the number of matched documents the update changed. No save hook
      runs.\<close>
  "updateMany ids upd bs =
     (map (\<lambda>b. if blog_id b \<in> set ids then upd b else b) bs,
      length (filter (\<lambda>b. blog_id b \<in> set ids \<and> upd b \<noteq> b) bs))"

definition js_or :: "nat option \<Rightarrow> nat option \<Rightarrow> nat option" where
  \<comment> \<open>\<open>a || b\<close> on numbers that may be \<open>undefined\<close> (\<open>None\<close>): 0 and \<open>undefined\<close> are falsy\<close>
  "js_or a b = (case a of Some n \<Rightarrow> if n \<noteq> 0 then Some n else b | None \<Rightarrow> b)"

text \<open>
  The result is the \<open>modifiedCount\<close> field of the response, \<open>None\<close> when the expression
  \<open>result.modifiedCount || result.deletedCount\<close> is \<open>undefined\<close>. \<open>blogIds\<close> is \<open>None\<close>
  when the body has no array under that name.
\<close>

definition bulk ::
    "time \<Rightarrow> user option \<Rightarrow> string \<Rightarrow> oid list option \<Rightarrow> store \<Rightarrow> (error + nat option) \<times> store" where
  "bulk now caller action blogIds s =
     (case adminAuth caller of
        Inl e \<Rightarrow> (Inl e, s)
      | Inr u \<Rightarrow>
          (case blogIds of
             None \<Rightarrow> (Inl ValidationFailed, s)
           | Some ids \<Rightarrow>
               if action = [] then (Inl ValidationFailed, s)
               else if action = ''delete'' then
                 (let (bs, deletedCount) = deleteMany ids (blogs s)
                  in (Inr (js_or None (Some deletedCount)), s\<lparr>blogs := bs\<rparr>))
               else if action = ''publish'' then
                 (let (bs, modifiedCount) =
                        updateMany ids (\<lambda>b. b\<lparr>status := ''published'', publishedAt := Some now\<rparr>) (blogs s)
                  in (Inr (js_or (Some modifiedCount) None), s\<lparr>blogs := bs\<rparr>))
               else if action = ''draft'' then
                 (let (bs, modifiedCount) = updateMany ids (\<lambda>b. b\<lparr>status := ''draft''\<rparr>) (blogs s)
                  in (Inr (js_or (Some modifiedCount) None), s\<lparr>blogs := bs\<rparr>))
               else if action = ''feature'' then
                 (let (bs, modifiedCount) = updateMany ids (\<lambda>b. b\<lparr>featured := True\<rparr>) (blogs s)
                  in (Inr (js_or (Some modifiedCount) None), s\<lparr>blogs := bs\<rparr>))
               else if action = ''unfeature'' then
                 (let (bs, modifiedCount) = updateMany ids (\<lambda>b. b\<lparr>featured := False\<rparr>) (blogs s)
                  in (Inr (js_or (Some modifiedCount) None), s\<lparr>blogs := bs\<rparr>))
               else (Inl InvalidAction, s)))"

section \<open>The dashboard's creation trend\<close>

text \<open>
  \<open>$year\<close>, \<open>$month\<close> and \<open>$dayOfMonth\<close> of a date, in UTC: the civil date of the day
  number \<open>ms div 86400000\<close> in the proleptic Gregorian calendar.
\<close>

definition utc_ymd :: "time \<Rightarrow> int \<times> int \<times> int" where
  "utc_ymd ms =
     (let z = ms div 86400000 + 719468;
          era = z div 146097;
          doe = z - era * 146097;
          yoe = (doe - doe div 1460 + doe div 36524 - doe div 146096) div 365;
          doy = doe - (365 * yoe + yoe div 4 - yoe div 100);
          mp = (5 * doy + 2) div 153;
          d = doy - (153 * mp + 2) div 5 + 1;
          m = (if mp < 10 then mp + 3 else mp - 9);
          y = yoe + era * 400 + (if m \<le> 2 then 1 else 0)
      in (y, m, d))"

definition group_count :: "'k list \<Rightarrow> ('k \<times> nat) list" where
  \<comment> \<open>\<open>{ $group: { _id: key, count: { $sum: 1 } } }\<close> over the keys of the documents\<close>
  "group_count ks = map (\<lambda>k. (k, count_list ks k)) (remdups ks)"

definition thirtyDaysAgo :: "time \<Rightarrow> time" where
  "thirtyDaysAgo now = now - 30 * 24 * 60 * 60 * 1000"

text \<open>
  The \<open>monthlyTrend\<close> pipeline: \<open>$match\<close>, \<open>$group\<close> by the calendar day of
  \<open>createdAt\<close>, \<open>$sort\<close> by year, month and day, ascending (the lexicographic order of the
  keys).
\<close>

definition monthlyTrend :: "time \<Rightarrow> blog list \<Rightarrow> ((int \<times> int \<times> int) \<times> nat) list" where
  "monthlyTrend now bs =
     (let matched = filter (\<lambda>b. createdAt b \<ge> thirtyDaysAgo now) bs
      in sort_key fst (group_count (map (\<lambda>b. utc_ymd (createdAt b)) matched)))"

section \<open>Notions used in the statements\<close>

definition is_slug_char :: "char \<Rightarrow> bool" where
  \<comment> \<open>the class \<open>[a-z0-9-]\<close>\<close>
  "is_slug_char c = (let n = of_char c :: nat in
     (97 \<le> n \<and> n \<le> 122) \<or> (48 \<le> n \<and> n \<le> 57) \<or> n = 45)"

fun adjacent_hyphens :: "string \<Rightarrow> bool" where
  "adjacent_hyphens (a # b # cs) =
     ((a = CHR ''-'' \<and> b = CHR ''-'') \<or> adjacent_hyphens (b # cs))"
| "adjacent_hyphens cs = False"

fun join_words :: "string list \<Rightarrow> string" where
  "join_words [] = []"
| "join_words [w] = w"
| "join_words (w # ws) = w @ CHR '' '' # join_words ws"

definition is_word :: "string \<Rightarrow> bool" where
  "is_word w = (w \<noteq> [] \<and> \<not> list_ex is_space w)"

text \<open>
  The number of words of a text in the spec's sense ("a body of exactly 400 words"): the
  number of maximal runs of characters that are not whitespace.
\<close>

function spec_word_count :: "string \<Rightarrow> nat" where
  "spec_word_count [] = 0"
| "spec_word_count (c # cs) =
     (if is_space c then spec_word_count cs
      else Suc (spec_word_count (dropWhile (\<lambda>x. \<not> is_space x) cs)))"
  by pat_completeness auto
termination
  by (relation "measure length") (auto simp: le_imp_less_Suc length_dropWhile_le)

text \<open>Every stored post passes the validators of the schema.\<close>

definition store_valid :: "store \<Rightarrow> bool" where
  "store_valid s = list_all schema_valid (blogs s)"

text \<open>
  The value a field has after one of the assignments of \<open>router.put('/:id')\<close>, from the
  request's field and the value before: \<open>if (x) blog.x = f(x)\<close> for a string,
  \<open>if (x) blog.x = x\<close> for an array or an object, \<open>if (x !== undefined)\<close> for the flag.
\<close>

definition truthy_str_or :: "(string \<Rightarrow> string) \<Rightarrow> string option \<Rightarrow> string \<Rightarrow> string" where
  "truthy_str_or f x old = (case x of Some v \<Rightarrow> if v \<noteq> [] then f v else old | None \<Rightarrow> old)"

definition given_or :: "'a option \<Rightarrow> 'a \<Rightarrow> 'a" where
  "given_or x old = (case x of Some v \<Rightarrow> v | None \<Rightarrow> old)"

definition given_some_or :: "'a option \<Rightarrow> 'a option \<Rightarrow> 'a option" where
  "given_some_or x old = (case x of Some v \<Rightarrow> Some v | None \<Rightarrow> old)"

definition seo_merged :: "seo_block option \<Rightarrow> seo_block \<Rightarrow> seo_block" where
  "seo_merged x old = (case x of Some m \<Rightarrow> old ++ m | None \<Rightarrow> old)"

definition publishedAt_after :: "time \<Rightarrow> string option \<Rightarrow> time option \<Rightarrow> time option" where
  "publishedAt_after now x old =
     (case x of Some st \<Rightarrow> if st = ''published'' \<and> old = None then Some now else old
      | None \<Rightarrow> old)"

section \<open>Sample data\<close>

definition admin0 :: user where
  "admin0 = \<lparr> user_id = ''0000000000000000000000a0'', username = ''ada'', email = ''ada@example.org'',
     role = ''admin'', postsCount = 0, viewsCount = 0, likesCount = 0, isActive = True \<rparr>"

definition editor0 :: user where
  "editor0 = \<lparr> user_id = ''0000000000000000000000e0'', username = ''eve'', email = ''eve@example.org'',
     role = ''editor'', postsCount = 2, viewsCount = 0, likesCount = 0, isActive = True \<rparr>"

definition editor1 :: user where
  "editor1 = \<lparr> user_id = ''0000000000000000000000e1'', username = ''edmund'',
     email = ''edmund@example.org'', role = ''editor'', postsCount = 0, viewsCount = 0,
     likesCount = 0, isActive = True \<rparr>"

definition post0 :: blog where
  "post0 = \<lparr> blog_id = ''0000000000000000000000b0'', title = ''Hello World'', slug = ''hello-world'',
     content = ''one two three'', excerpt = ''first'', featuredImage = None, images = [],
     author = ''0000000000000000000000e0'', category = ''City'', tags = [], location = None,
     seo = [MetaTitle \<mapsto> Text ''Hello'', Keywords \<mapsto> TextList [''a'', ''b'']],
     status = ''draft'', publishedAt = None, scheduledAt = None,
     stats = \<lparr> views = 7, likes = 0, shares = 0, comments = 0 \<rparr>,
     readingTime = 1, featured = False, createdAt = 1000, updatedAt = 1000 \<rparr>"

definition post1 :: blog where
  "post1 = \<lparr> blog_id = ''0000000000000000000000b1'', title = ''Old Town'', slug = ''old-town'',
     content = ''walls and towers'', excerpt = ''second'', featuredImage = None, images = [],
     author = ''0000000000000000000000e0'', category = ''Historical'', tags = [], location = None,
     seo = Map.empty, status = ''published'', publishedAt = Some 2000, scheduledAt = None,
     stats = \<lparr> views = 0, likes = 0, shares = 0, comments = 0 \<rparr>,
     readingTime = 1, featured = False, createdAt = 2000, updatedAt = 2000 \<rparr>"

definition store0 :: store where
  "store0 = \<lparr> blogs = [post0, post1], users = [admin0, editor0, editor1] \<rparr>"

definition body0 :: blog_body where
  "body0 = \<lparr> req_title = None, req_content = None, req_excerpt = None, req_category = None,
     req_tags = None, req_location = None, req_seo = None, req_featuredImage = None,
     req_images = None, req_status = None, req_featured = None, req_scheduledAt = None \<rparr>"

definition body_seo :: blog_body where
  "body_seo = body0\<lparr> req_excerpt := Some ''rewritten'',
     req_seo := Some [MetaDescription \<mapsto> Text ''about'', MetaTitle \<mapsto> Text ''Hi''] \<rparr>"

definition body_lisbon :: blog_body where
  "body_lisbon = body0\<lparr> req_title := Some ''Lisbon by Tram'', req_content := Some ''up the hill'',
     req_excerpt := Some ''line 28'', req_category := Some ''City'' \<rparr>"

definition post2 :: blog where
  \<comment> \<open>the post that the first editor creates from \<open>body_lisbon\<close> at time 5000\<close>
  "post2 = \<lparr> blog_id = ''0000000000000000000000b2'', title = ''Lisbon by Tram'',
     slug = ''lisbon-by-tram'', content = ''up the hill'', excerpt = ''line 28'',
     featuredImage = None, images = [], author = ''0000000000000000000000e0'', category = ''City'',
     tags = [], location = None, seo = Map.empty, status = ''draft'', publishedAt = None,
     scheduledAt = None, stats = \<lparr> views = 0, likes = 0, shares = 0, comments = 0 \<rparr>,
     readingTime = 1, featured = False, createdAt = 5000, updatedAt = 5000 \<rparr>"

definition store1 :: store where
  "store1 = \<lparr> blogs = [post0, post1, post2],
     users = [admin0, editor0\<lparr>postsCount := 3\<rparr>, editor1] \<rparr>"

definition trend_posts :: "blog list" where
  \<comment> \<open>created on 5 Feb, 21 Jan, 6 Jan, 11 Jan 14:00, 21 Jan and 11 Jan 10:00 of 1970\<close>
  "trend_posts = map (\<lambda>t. post0\<lparr>createdAt := t\<rparr>)
     [3024000000, 1728000000, 432000000, 914400000, 1731600000, 900000000]"




definition lines400 :: string where
  \<comment> \<open>400 words, one per line\<close>
  "lines400 = concat (replicate 400 [CHR ''a'', CHR 0x0A])"

definition body_lines :: blog_body where
  "body_lines = body0\<lparr> req_title := Some ''Lines'', req_content := Some lines400,
     req_excerpt := Some ''every word on its own line'', req_category := Some ''City'' \<rparr>"

section \<open>Evaluation of the string functions\<close>

lemmas string_eval =
  slugify_def toLowerCase_def toLowerCase_char_def is_alnum_def is_space_def is_slug_char_def
  char_of_eq_iff

section \<open>Slug derivation\<close>

lemma toLowerCase_char_not_upper:
  "\<not> (65 \<le> (of_char (toLowerCase_char c) :: nat) \<and> (of_char (toLowerCase_char c) :: nat) \<le> 90)"
  by (auto simp: toLowerCase_char_def Let_def)

lemma set_collapse_spaces:
  "set (collapse_spaces s) \<subseteq> {c \<in> set s. \<not> is_space c} \<union> {CHR ''-''}"
proof (induction s rule: collapse_spaces.induct)
  case 1
  show ?case by simp
next
  case (2 c cs)
  show ?case
  proof (cases "is_space c")
    case True
    have "set (dropWhile is_space cs) \<subseteq> set cs" by (auto dest: set_dropWhileD)
    with 2(1)[OF True] True show ?thesis by auto
  next
    case False
    with 2(2)[OF False] show ?thesis by auto
  qed
qed

lemma slug_char_of_kept:
  assumes "is_alnum (toLowerCase_char c) \<or> is_space (toLowerCase_char c)"
      and "\<not> is_space (toLowerCase_char c)"
  shows "is_slug_char (toLowerCase_char c)"
  using assms toLowerCase_char_not_upper[of c]
  by (auto simp: is_alnum_def is_slug_char_def Let_def)

lemma is_slug_char_hyphen: "is_slug_char CHR ''-''"
  by (simp add: is_slug_char_def)

lemma slugify_chars: "c \<in> set (slugify t) \<Longrightarrow> is_slug_char c"
proof -
  assume "c \<in> set (slugify t)"
  then have "c \<in> set (collapse_spaces (filter (\<lambda>c. is_alnum c \<or> is_space c) (toLowerCase t)))"
    unfolding slugify_def by (rule in_set_takeD)
  with set_collapse_spaces have
    "c \<in> {c \<in> set (filter (\<lambda>c. is_alnum c \<or> is_space c) (toLowerCase t)). \<not> is_space c} \<union> {CHR ''-''}"
    by blast
  then show ?thesis
    by (auto simp: toLowerCase_def is_slug_char_hyphen intro: slug_char_of_kept)
qed

lemma collapse_spaces_hd:
  "collapse_spaces s = a # r \<Longrightarrow> a = CHR ''-'' \<Longrightarrow> s \<noteq> [] \<and> (is_space (hd s) \<or> hd s = CHR ''-'')"
  by (cases s) (auto split: if_splits)

lemma no_adjacent_collapse:
  "CHR ''-'' \<notin> set s \<Longrightarrow> \<not> adjacent_hyphens (collapse_spaces s)"
proof (induction s rule: collapse_spaces.induct)
  case 1
  show ?case by simp
next
  case (2 c cs)
  show ?case
  proof (cases "is_space c")
    case True
    let ?d = "dropWhile is_space cs"
    have sub: "set ?d \<subseteq> set cs" by (auto dest: set_dropWhileD)
    with 2(3) have nh: "CHR ''-'' \<notin> set ?d" by auto
    from 2(1)[OF True nh] have ih: "\<not> adjacent_hyphens (collapse_spaces ?d)" .
    show ?thesis
    proof (cases "collapse_spaces ?d")
      case Nil
      with True show ?thesis by simp
    next
      case (Cons a r)
      have "a \<noteq> CHR ''-''"
      proof
        assume a: "a = CHR ''-''"
        from collapse_spaces_hd[OF Cons a] have ne: "?d \<noteq> []" and
          h: "is_space (hd ?d) \<or> hd ?d = CHR ''-''" by auto
        from hd_dropWhile[OF ne] have "\<not> is_space (hd ?d)" .
        with h have "hd ?d = CHR ''-''" by simp
        with ne nh show False by (metis hd_in_set)
      qed
      with ih Cons True show ?thesis by simp
    qed
  next
    case False
    from 2(3) have nh: "CHR ''-'' \<notin> set cs" and c: "c \<noteq> CHR ''-''" by auto
    from 2(2)[OF False nh] have ih: "\<not> adjacent_hyphens (collapse_spaces cs)" .
    show ?thesis
    proof (cases "collapse_spaces cs")
      case Nil
      with False show ?thesis by simp
    next
      case (Cons a r)
      with ih False c show ?thesis by simp
    qed
  qed
qed

lemma adjacent_hyphens_take: "adjacent_hyphens (take n s) \<Longrightarrow> adjacent_hyphens s"
proof (induction s arbitrary: n rule: adjacent_hyphens.induct)
  case (1 a b cs)
  show ?case
  proof (cases n)
    case 0
    with 1(2) show ?thesis by simp
  next
    case (Suc m)
    note n = this
    show ?thesis
    proof (cases m)
      case 0
      with n 1(2) show ?thesis by simp
    next
      case (Suc k)
      with n 1(2) have "(a = CHR ''-'' \<and> b = CHR ''-'') \<or> adjacent_hyphens (take m (b # cs))"
        by simp
      with 1(1) show ?thesis by auto
    qed
  qed
qed (simp_all add: take_Cons' split: if_splits)

lemma hyphen_not_kept: "\<not> (is_alnum CHR ''-'' \<or> is_space CHR ''-'')"
  by (simp add: is_alnum_def is_space_def)

lemma slugify_no_adjacent: "\<not> adjacent_hyphens (slugify t)"
proof
  assume "adjacent_hyphens (slugify t)"
  then have "adjacent_hyphens (collapse_spaces (filter (\<lambda>c. is_alnum c \<or> is_space c) (toLowerCase t)))"
    unfolding slugify_def by (rule adjacent_hyphens_take)
  moreover have "CHR ''-'' \<notin> set (filter (\<lambda>c. is_alnum c \<or> is_space c) (toLowerCase t))"
    using hyphen_not_kept by auto
  ultimately show False using no_adjacent_collapse by blast
qed

lemma toLowerCase_char_space: "is_space c \<Longrightarrow> toLowerCase_char c = c"
  by (auto simp: is_space_def toLowerCase_char_def Let_def)

lemma slugify_leading:
  assumes "is_space c"
  shows "slugify (c # cs) \<noteq> [] \<and> hd (slugify (c # cs)) = CHR ''-''"
  using assms by (simp add: slugify_def toLowerCase_def toLowerCase_char_space)

lemma last_dropWhile: "dropWhile P xs \<noteq> [] \<Longrightarrow> last (dropWhile P xs) = last xs"
proof -
  assume ne: "dropWhile P xs \<noteq> []"
  have "last xs = last (takeWhile P xs @ dropWhile P xs)" by simp
  also have "\<dots> = last (dropWhile P xs)" using ne by (rule last_appendR)
  finally show ?thesis by simp
qed

lemma collapse_spaces_last:
  "s \<noteq> [] \<Longrightarrow> is_space (last s) \<Longrightarrow>
     collapse_spaces s \<noteq> [] \<and> last (collapse_spaces s) = CHR ''-''"
proof (induction s rule: collapse_spaces.induct)
  case 1
  then show ?case by simp
next
  case (2 c cs)
  show ?case
  proof (cases "is_space c")
    case True
    let ?d = "dropWhile is_space cs"
    show ?thesis
    proof (cases "?d = []")
      case True
      with \<open>is_space c\<close> show ?thesis by (simp del: dropWhile_eq_Nil_conv)
    next
      case False
      then have cs: "cs \<noteq> []" by auto
      from False have "last ?d = last cs" by (rule last_dropWhile)
      with cs 2(4) have "is_space (last ?d)" by simp
      from 2(1)[OF True False this] True show ?thesis by simp
    qed
  next
    case False
    with 2(4) have cs: "cs \<noteq> []" by (cases cs) auto
    with 2(4) have "is_space (last cs)" by simp
    from 2(2)[OF False cs this] False show ?thesis by simp
  qed
qed

lemma length_collapse_spaces: "length (collapse_spaces s) \<le> length s"
proof (induction s rule: collapse_spaces.induct)
  case 1
  show ?case by simp
next
  case (2 c cs)
  show ?case
  proof (cases "is_space c")
    case True
    have "length (dropWhile is_space cs) \<le> length cs" by (rule length_dropWhile_le)
    with 2(1)[OF True] True show ?thesis by simp
  next
    case False
    with 2(2)[OF False] show ?thesis by simp
  qed
qed

lemma slugify_trailing:
  assumes ne: "t \<noteq> []" and sp: "is_space (last t)" and len: "length t \<le> 50"
  shows "slugify t \<noteq> [] \<and> last (slugify t) = CHR ''-''"
proof -
  let ?k = "filter (\<lambda>c. is_alnum c \<or> is_space c) (toLowerCase t)"
  from ne have t: "t = butlast t @ [last t]" by simp
  have "toLowerCase t = toLowerCase (butlast t) @ [last t]"
    by (subst t) (simp add: toLowerCase_def toLowerCase_char_space[OF sp])
  then have k: "?k = filter (\<lambda>c. is_alnum c \<or> is_space c) (toLowerCase (butlast t)) @ [last t]"
    using sp by simp
  then have kne: "?k \<noteq> []" and klast: "last ?k = last t" by simp_all
  from collapse_spaces_last[OF kne] klast sp
  have c: "collapse_spaces ?k \<noteq> []" "last (collapse_spaces ?k) = CHR ''-''" by simp_all
  have "length (collapse_spaces ?k) \<le> length ?k" by (rule length_collapse_spaces)
  also have "\<dots> \<le> length (toLowerCase t)" by (rule length_filter_le)
  also have "\<dots> \<le> 50" using len by (simp add: toLowerCase_def)
  finally have "take 50 (collapse_spaces ?k) = collapse_spaces ?k" by simp
  with c show ?thesis by (simp add: slugify_def)
qed

text \<open>
  Claim C2, as the code has it. For every title the derived slug consists of characters of
  \<open>[a-z0-9-]\<close> only (so it is lower-case), has no two adjacent hyphens, and is at most 50
  characters long. The expression does not trim the title: a title that starts with
  whitespace gives a slug that starts with a hyphen, and a title of at most 50 characters
  that ends with whitespace gives a slug that ends with a hyphen.
\<close>

theorem C2_slug_shape:
  "list_all is_slug_char (slugify t) \<and> \<not> adjacent_hyphens (slugify t) \<and> length (slugify t) \<le> 50 \<and>
   (t \<noteq> [] \<and> is_space (hd t) \<longrightarrow> slugify t \<noteq> [] \<and> hd (slugify t) = CHR ''-'') \<and>
   (t \<noteq> [] \<and> is_space (last t) \<and> length t \<le> 50 \<longrightarrow>
      slugify t \<noteq> [] \<and> last (slugify t) = CHR ''-'')"
proof -
  have chars: "list_all is_slug_char (slugify t)"
    by (simp add: list_all_iff slugify_chars)
  have len: "length (slugify t) \<le> 50"
    by (simp add: slugify_def)
  have lead: "t \<noteq> [] \<and> is_space (hd t) \<longrightarrow> slugify t \<noteq> [] \<and> hd (slugify t) = CHR ''-''"
    by (cases t) (use slugify_leading in auto)
  have trail: "t \<noteq> [] \<and> is_space (last t) \<and> length t \<le> 50 \<longrightarrow>
      slugify t \<noteq> [] \<and> last (slugify t) = CHR ''-''"
    using slugify_trailing by blast
  from chars slugify_no_adjacent len lead trail show ?thesis by blast
qed

text \<open>The title \<open>" Hello,  World! "\<close>: both hypotheses hold, and so do all conclusions.\<close>

theorem C2_slug_shape_witness:
  "is_space (hd '' Hello,  World! '') \<and> is_space (last '' Hello,  World! '') \<and>
   length '' Hello,  World! '' \<le> 50 \<and>
   list_all is_slug_char (slugify '' Hello,  World! '') \<and>
   \<not> adjacent_hyphens (slugify '' Hello,  World! '') \<and>
   length (slugify '' Hello,  World! '') \<le> 50 \<and>
   hd (slugify '' Hello,  World! '') = CHR ''-'' \<and>
   last (slugify '' Hello,  World! '') = CHR ''-''"
  using C2_slug_shape [of "'' Hello,  World! ''"]
  by (simp add: is_space_def)

text \<open>
  Claim C2 as stated says that surrounding whitespace leaves no leading or trailing hyphen.
  The title \<open>" Hello World "\<close> derives the slug \<open>"-hello-world-"\<close>.
\<close>

theorem C2_surrounding_whitespace_counterexample:
  "slugify '' Hello World '' = ''-hello-world-''"
  by (simp add: string_eval)

section \<open>Reading time\<close>

lemma split_space_ne: "split_space s \<noteq> []"
  by (induction s) (auto split: list.splits)

lemma wordCount_spaces: "wordCount s = Suc (count_list s CHR '' '')"
  unfolding wordCount_def
proof (induction s)
  case Nil
  show ?case by simp
next
  case (Cons c cs)
  then show ?case using split_space_ne[of cs] by (cases "split_space cs") auto
qed

lemma is_space_space: "is_space CHR '' ''"
  by (simp add: is_space_def)

lemma is_word_no_space: "is_word w \<Longrightarrow> count_list w CHR '' '' = 0"
  using is_space_space by (auto simp: is_word_def list_ex_iff)

lemma count_join_words:
  "list_all is_word ws \<Longrightarrow> ws \<noteq> [] \<Longrightarrow> Suc (count_list (join_words ws) CHR '' '') = length ws"
proof (induction ws rule: join_words.induct)
  case 1
  then show ?case by simp
next
  case (2 w)
  then show ?case by (simp add: is_word_no_space)
next
  case (3 w v vs)
  then show ?case by (simp add: is_word_no_space)
qed

lemma spec_word_count_word:
  assumes w: "is_word w" and r: "r = [] \<or> is_space (hd r)"
  shows "spec_word_count (w @ r) = Suc (spec_word_count r)"
proof -
  from w obtain c w' where cw: "w = c # w'" and c: "\<not> is_space c"
    and w': "\<And>x. x \<in> set w' \<Longrightarrow> \<not> is_space x"
    by (cases w) (auto simp: is_word_def list_ex_iff)
  have "dropWhile (\<lambda>x. \<not> is_space x) (w' @ r) = dropWhile (\<lambda>x. \<not> is_space x) r"
    using w' by (simp add: dropWhile_append2)
  also have "\<dots> = r" using r by (cases r) auto
  finally show ?thesis using cw c by simp
qed

lemma spec_word_count_join:
  "list_all is_word ws \<Longrightarrow> spec_word_count (join_words ws) = length ws"
proof (induction ws rule: join_words.induct)
  case 1
  show ?case by simp
next
  case (2 w)
  then have "spec_word_count (w @ []) = Suc (spec_word_count [])"
    by (intro spec_word_count_word) simp_all
  then show ?case by simp
next
  case (3 w v vs)
  then have w: "is_word w" and rest: "list_all is_word (v # vs)" by simp_all
  have "spec_word_count (w @ CHR '' '' # join_words (v # vs)) =
        Suc (spec_word_count (CHR '' '' # join_words (v # vs)))"
    using w by (intro spec_word_count_word) (simp_all add: is_space_space)
  with 3(1)[OF rest] show ?case by (simp add: is_space_space)
qed

lemma ceiling_nat_div: "\<lceil>real n / real wordsPerMinute\<rceil> = int ((n + 199) div 200)"
proof -
  have "\<lceil>real n / 200\<rceil> = \<lceil>real_of_int (int n) / real_of_int 200\<rceil>" by simp
  also have "\<dots> = - ((- int n) div 200)" by (simp only: ceiling_divide_eq_div)
  also have "\<dots> = int ((n + 199) div 200)" by (simp add: zdiv_int)
  finally show ?thesis by (simp add: wordsPerMinute_def)
qed

section \<open>The assignments of an update\<close>

lemma assign_title_eq:
  "assign_title body b = b\<lparr>title := truthy_str_or trim (req_title body) (title b)\<rparr>"
  by (cases "req_title body") (simp_all add: assign_title_def truthy_str_or_def)

lemma assign_content_eq:
  "assign_content body b = b\<lparr>content := truthy_str_or id (req_content body) (content b)\<rparr>"
  by (cases "req_content body") (simp_all add: assign_content_def truthy_str_or_def)

lemma assign_excerpt_eq:
  "assign_excerpt body b = b\<lparr>excerpt := truthy_str_or id (req_excerpt body) (excerpt b)\<rparr>"
  by (cases "req_excerpt body") (simp_all add: assign_excerpt_def truthy_str_or_def)

lemma assign_category_eq:
  "assign_category body b = b\<lparr>category := truthy_str_or id (req_category body) (category b)\<rparr>"
  by (cases "req_category body") (simp_all add: assign_category_def truthy_str_or_def)

lemma assign_tags_eq:
  "assign_tags body b =
     b\<lparr>tags := given_or (map_option (map (\<lambda>t. trim (toLowerCase t))) (req_tags body)) (tags b)\<rparr>"
  by (cases "req_tags body") (simp_all add: assign_tags_def given_or_def)

lemma assign_location_eq:
  "assign_location body b = b\<lparr>location := given_some_or (req_location body) (location b)\<rparr>"
  by (cases "req_location body") (simp_all add: assign_location_def given_some_or_def)

lemma assign_seo_eq:
  "assign_seo body b = b\<lparr>seo := seo_merged (req_seo body) (seo b)\<rparr>"
  by (cases "req_seo body") (simp_all add: assign_seo_def seo_merged_def)

lemma assign_featuredImage_eq:
  "assign_featuredImage body b =
     b\<lparr>featuredImage := given_some_or (req_featuredImage body) (featuredImage b)\<rparr>"
  by (cases "req_featuredImage body") (simp_all add: assign_featuredImage_def given_some_or_def)

lemma assign_images_eq:
  "assign_images body b = b\<lparr>images := given_or (req_images body) (images b)\<rparr>"
  by (cases "req_images body") (simp_all add: assign_images_def given_or_def)

lemma assign_status_eq:
  "assign_status now body b =
     b\<lparr>status := truthy_str_or id (req_status body) (status b),
       publishedAt := publishedAt_after now (req_status body) (publishedAt b)\<rparr>"
  by (cases "req_status body")
     (auto simp: assign_status_def Let_def truthy_str_or_def publishedAt_after_def)

lemma assign_featured_eq:
  "assign_featured body b = b\<lparr>featured := given_or (req_featured body) (featured b)\<rparr>"
  by (cases "req_featured body") (simp_all add: assign_featured_def given_or_def)

lemma assign_scheduledAt_eq:
  "assign_scheduledAt body b =
     b\<lparr>scheduledAt := given_some_or (req_scheduledAt body) (scheduledAt b)\<rparr>"
  by (cases "req_scheduledAt body") (simp_all add: assign_scheduledAt_def given_some_or_def)

lemmas assign_steps =
  assign_title_eq assign_content_eq assign_excerpt_eq assign_category_eq assign_tags_eq
  assign_location_eq assign_seo_eq assign_featuredImage_eq assign_images_eq assign_status_eq
  assign_featured_eq assign_scheduledAt_eq

lemma assign_fields_eq:
  "assign_fields now body b = b\<lparr>
     title := truthy_str_or trim (req_title body) (title b),
     content := truthy_str_or id (req_content body) (content b),
     excerpt := truthy_str_or id (req_excerpt body) (excerpt b),
     category := truthy_str_or id (req_category body) (category b),
     tags := given_or (map_option (map (\<lambda>t. trim (toLowerCase t))) (req_tags body)) (tags b),
     location := given_some_or (req_location body) (location b),
     seo := seo_merged (req_seo body) (seo b),
     featuredImage := given_some_or (req_featuredImage body) (featuredImage b),
     images := given_or (req_images body) (images b),
     status := truthy_str_or id (req_status body) (status b),
     publishedAt := publishedAt_after now (req_status body) (publishedAt b),
     featured := given_or (req_featured body) (featured b),
     scheduledAt := given_some_or (req_scheduledAt body) (scheduledAt b)\<rparr>"
  unfolding assign_fields_def Let_def
  by (simp add: assign_steps)

section \<open>Saving\<close>

lemma pre_save_eq:
  "pre_save now m b =
     b\<lparr>readingTime := (if m then \<lceil>real (wordCount (content b)) / real wordsPerMinute\<rceil>
                        else readingTime b),
       updatedAt := now\<rparr>"
  by (simp add: pre_save_def Let_def)

lemma save_SomeD:
  assumes "save now orig b s = Some (b', s')"
  shows "schema_valid b \<and> b' = pre_save now (isModified_content orig b) b \<and>
         users s' = users s \<and>
         blogs s' = (case orig of None \<Rightarrow> blogs s @ [b']
                     | Some old \<Rightarrow> map (\<lambda>x. if blog_id x = blog_id b' then b' else x) (blogs s))"
  using assms by (auto simp: save_def Let_def split: if_splits option.splits)

lemma join_words_ne: "list_all is_word ws \<Longrightarrow> ws \<noteq> [] \<Longrightarrow> join_words ws \<noteq> []"
  by (induction ws rule: join_words.induct) (auto simp: is_word_def)

lemma wordCount_join_words:
  "list_all is_word ws \<Longrightarrow> ws \<noteq> [] \<Longrightarrow> wordCount (join_words ws) = length ws"
  by (simp add: wordCount_spaces count_join_words)

lemma ceiling_numeral_div:
  "\<lceil>numeral k / real wordsPerMinute\<rceil> = int ((numeral k + 199) div 200)"
  using ceiling_nat_div [of "numeral k"] by simp

lemmas sample_defs = store0_def post0_def post1_def admin0_def editor0_def editor1_def body0_def

text \<open>
  The reading time that a save stores. The saved document comes back with the body it was
  given; its reading time is \<open>\<lceil>n / 200\<rceil>\<close> when the body is modified, where \<open>n\<close> is the
  number of pieces of the body split at single space characters (the number of space
  characters plus one), and is as it was otherwise. The store holds that document: appended
  when it is new, in the place of the record with its id otherwise. For a body of words
  (non-empty, free of whitespace) joined by single spaces \<open>n\<close> is the number of words.
\<close>

lemma reading_time_of_save:
  "(save now orig b s = Some (b', s') \<longrightarrow>
      content b' = content b \<and>
      (isModified_content orig b \<longrightarrow>
         readingTime b' = \<lceil>real (wordCount (content b)) / real wordsPerMinute\<rceil>) \<and>
      (\<not> isModified_content orig b \<longrightarrow> readingTime b' = readingTime b) \<and>
      users s' = users s \<and>
      blogs s' = (case orig of None \<Rightarrow> blogs s @ [b']
                  | Some old \<Rightarrow> map (\<lambda>x. if blog_id x = blog_id b then b' else x) (blogs s))) \<and>
   wordCount c = Suc (count_list c CHR '' '') \<and>
   (list_all is_word ws \<and> ws \<noteq> [] \<longrightarrow>
      wordCount (join_words ws) = length ws \<and> spec_word_count (join_words ws) = length ws)"
proof (intro conjI impI)
  assume sv: "save now orig b s = Some (b', s')"
  note d = save_SomeD [OF sv]
  from d have b': "b' = pre_save now (isModified_content orig b) b"
    by simp
  then show "content b' = content b"
    by (simp add: pre_save_eq)
  show "readingTime b' = \<lceil>real (wordCount (content b)) / real wordsPerMinute\<rceil>"
    if "isModified_content orig b"
    using that b' by (simp add: pre_save_eq)
  show "readingTime b' = readingTime b" if "\<not> isModified_content orig b"
    using that b' by (simp add: pre_save_eq)
  from d show "users s' = users s"
    by simp
  have "blog_id b' = blog_id b"
    by (simp add: b' pre_save_eq)
  with d show "blogs s' = (case orig of None \<Rightarrow> blogs s @ [b']
                  | Some old \<Rightarrow> map (\<lambda>x. if blog_id x = blog_id b then b' else x) (blogs s))"
    by (simp split: option.splits)
next
  show "wordCount c = Suc (count_list c CHR '' '')"
    by (rule wordCount_spaces)
next
  assume "list_all is_word ws \<and> ws \<noteq> []"
  then show "wordCount (join_words ws) = length ws" and "spec_word_count (join_words ws) = length ws"
    by (simp_all add: wordCount_join_words spec_word_count_join)
qed

lemma lines400_ne: "lines400 \<noteq> []"
  by (simp add: lines400_def)

lemma count_lines: "count_list (concat (replicate n [CHR ''a'', CHR 0x0A])) CHR '' '' = 0"
  by (induction n) simp_all

lemma wordCount_lines400: "wordCount lines400 = 1"
  by (simp add: wordCount_spaces lines400_def count_lines)

lemma spec_word_count_lines:
  "spec_word_count (concat (replicate n [CHR ''a'', CHR 0x0A])) = n"
  by (induction n) (simp_all add: is_space_def)

lemma editorAuth_editor0: "editorAuth (Some editor0) = Inr editor0"
  by (simp add: editorAuth_def gate_def role_rank_def editor0_def)

lemma trim_Lines: "trim ''Lines'' = ''Lines''"
  by (simp add: trim_def is_space_def)

text \<open>
  Claim C4 at a failing input. An editor creates a post whose body is 400 words, each on a
  line of its own. The body has 400 words, so the reading time of the claim is 2 minutes;
  the body holds no space character, the hook counts one piece, and the post is returned
  and stored with a reading time of 1 minute.
\<close>

theorem C4_words_on_lines_reading_time:
  "spec_word_count lines400 = 400 \<and>
   req_content body_lines = Some lines400 \<and>
   map_sum id readingTime
     (fst (create_blog 5000 ''0000000000000000000000c0'' (Some editor0) body_lines store0)) = Inr 1 \<and>
   map (\<lambda>b. (slug b, readingTime b))
     (blogs (snd (create_blog 5000 ''0000000000000000000000c0'' (Some editor0) body_lines store0))) =
     [(''hello-world'', 1), (''old-town'', 1), (''lines'', 1)] \<and>
   content (last
     (blogs (snd (create_blog 5000 ''0000000000000000000000c0'' (Some editor0) body_lines store0)))) =
     lines400"
proof -
  define nb where
    "nb = new_blog 5000 ''0000000000000000000000c0'' (user_id editor0) ''lines'' body_lines"
  have count: "spec_word_count lines400 = 400"
    by (simp add: lines400_def spec_word_count_lines)
  have t: "req_title body_lines = Some ''Lines''" and rc: "req_content body_lines = Some lines400"
    by (simp_all add: body_lines_def)
  have sl: "slugify ''Lines'' = ''lines''"
    by (simp add: string_eval)
  have bv: "body_valid body_lines"
    by (simp add: body_valid_def body_lines_def body0_def categories_def lines400_ne)
  have nf: "find (\<lambda>b. slug b = ''lines'') (blogs store0) = None"
    by (simp add: store0_def post0_def post1_def)
  have valid: "schema_valid nb"
    by (simp add: nb_def schema_valid_def new_blog_def body_lines_def body0_def categories_def
        statuses_def lines400_ne trim_Lines toLowerCase_def toLowerCase_char_def char_of_eq_iff)
  have c: "content nb = lines400"
    by (simp add: nb_def new_blog_def body_lines_def body0_def)
  have s: "slug nb = ''lines''"
    by (simp add: nb_def new_blog_def Let_def toLowerCase_def toLowerCase_char_def char_of_eq_iff)
  have "readingTime (pre_save 5000 True nb) = int ((1 + 199) div 200)"
    by (simp only: pre_save_eq c wordCount_lines400 ceiling_nat_div) simp
  then have rt: "readingTime (pre_save 5000 True nb) = 1"
    by simp
  have keep: "slug (pre_save 5000 True nb) = ''lines''" "content (pre_save 5000 True nb) = lines400"
    by (simp_all add: pre_save_eq s c)
  have "save 5000 None nb store0 =
      Some (pre_save 5000 True nb, store0\<lparr>blogs := blogs store0 @ [pre_save 5000 True nb]\<rparr>)"
    by (simp add: save_def valid isModified_content_def Let_def)
  then have cr: "create_blog 5000 ''0000000000000000000000c0'' (Some editor0) body_lines store0 =
      (Inr (pre_save 5000 True nb),
       store0\<lparr>blogs := blogs store0 @ [pre_save 5000 True nb],
              users := inc_postsCount (user_id editor0) 1 (users store0)\<rparr>)"
    by (simp add: create_blog_def editorAuth_editor0 bv t sl nf Let_def flip: nb_def)
  have old: "map (\<lambda>b. (slug b, readingTime b)) (blogs store0) =
      [(''hello-world'', 1), (''old-town'', 1)]"
    by (simp add: store0_def post0_def post1_def)
  from count rc cr rt keep old show ?thesis
    by simp
qed

section \<open>Bulk operations\<close>

lemma adminAuth_admin0: "adminAuth (Some admin0) = Inr admin0"
  by (simp add: adminAuth_def gate_def role_rank_def admin0_def)

lemma editorAuth_admin0: "editorAuth (Some admin0) = Inr admin0"
  by (simp add: editorAuth_def gate_def role_rank_def admin0_def)

lemma bulk_unknown_action:
  assumes "adminAuth caller = Inr u" and "action \<noteq> []"
      and "action \<notin> set [''delete'', ''publish'', ''draft'', ''feature'', ''unfeature'']"
  shows "bulk now caller action (Some ids) s = (Inl InvalidAction, s)"
  using assms by (simp add: bulk_def)

lemma delete_blog_decrements:
  assumes "editorAuth caller = Inr u" and "find (\<lambda>b. blog_id b = bid) (blogs s) = Some blog"
      and "author blog = user_id u \<or> role u = ''admin''"
  shows "delete_blog caller bid s =
     (Inr (), s\<lparr>blogs := filter (\<lambda>b. blog_id b \<noteq> bid) (blogs s),
                users := inc_postsCount (author blog) (- 1) (users s)\<rparr>)"
  using assms by (auto simp: delete_blog_def)

text \<open>
  Claim C1 at a failing input. The sample store holds a post that is published, with
  \<open>publishedAt = 2000\<close>. A bulk publish of that post at time 9000 stores
  \<open>publishedAt = 9000\<close>: \<open>updateMany\<close> sets the field for every matched document, where
  the single-record update sets it only when it is unset.
\<close>

theorem C1_bulk_publish_overwrites_publishedAt:
  "status post1 = ''published'' \<and> publishedAt post1 = Some 2000 \<and>
   bulk 9000 (Some admin0) ''publish'' (Some [blog_id post1]) store0 =
     (Inr (Some 1), store0\<lparr>blogs := [post0, post1\<lparr>publishedAt := Some 9000\<rparr>]\<rparr>)"
  by (simp add: bulk_def adminAuth_admin0 updateMany_def js_or_def store0_def post0_def post1_def)

text \<open>
  Claim C5 at a failing input. The bulk delete of a post of the editor removes the post and
  leaves the editor's post counter at 2; the single-record delete of the same post stores
  the counter 1.
\<close>

theorem C5_bulk_delete_keeps_postsCount:
  "author post0 = user_id editor0 \<and> postsCount editor0 = 2 \<and>
   bulk 9000 (Some admin0) ''delete'' (Some [blog_id post0]) store0 =
     (Inr (Some 1), store0\<lparr>blogs := [post1]\<rparr>) \<and>
   users (store0\<lparr>blogs := [post1]\<rparr>) = [admin0, editor0, editor1] \<and>
   delete_blog (Some admin0) (blog_id post0) store0 =
     (Inr (), store0\<lparr>blogs := [post1], users := [admin0, editor0\<lparr>postsCount := 1\<rparr>, editor1]\<rparr>)"
  by (simp add: bulk_def adminAuth_def editorAuth_def gate_def role_rank_def deleteMany_def js_or_def
      delete_blog_def inc_postsCount_def store0_def post0_def post1_def admin0_def editor0_def
      editor1_def)

text \<open>
  Claim C7 at a failing input. A recognised bulk action that modifies no document (an empty
  list of identifiers, or a draft action on a post that is a draft) answers with
  \<open>0 || undefined\<close>, which is \<open>undefined\<close>: the response carries no count.
\<close>

theorem C7_bulk_zero_count_is_undefined:
  "bulk 9000 (Some admin0) ''feature'' (Some []) store0 = (Inr None, store0) \<and>
   status post0 = ''draft'' \<and>
   bulk 9000 (Some admin0) ''draft'' (Some [blog_id post0]) store0 = (Inr None, store0)"
  by (simp add: bulk_def adminAuth_admin0 updateMany_def js_or_def store0_def post0_def post1_def)

section \<open>Ownership\<close>

lemma gate_cases:
  "gate r (Some u) = Inl Forbidden \<or> gate r (Some u) = Inr u"
  by (simp add: gate_def)

text \<open>
  Claim C8. An authenticated caller who is neither the author of an existing post nor an
  admin cannot update or delete it: both routes answer Forbidden (from the gate for a
  caller below the editor role, from the ownership check otherwise) and the store is as it
  was.
\<close>

theorem C8_forbidden:
  assumes "find (\<lambda>b. blog_id b = bid) (blogs s) = Some blog"
      and "author blog \<noteq> user_id u" and "role u \<noteq> ''admin''"
  shows "update_blog now (Some u) bid body s = (Inl Forbidden, s) \<and>
         delete_blog (Some u) bid s = (Inl Forbidden, s)"
proof -
  from gate_cases [of "''editor''" u] show ?thesis
  proof
    assume "gate ''editor'' (Some u) = Inl Forbidden"
    then show ?thesis
      by (simp add: update_blog_def delete_blog_def editorAuth_def)
  next
    assume "gate ''editor'' (Some u) = Inr u"
    with assms show ?thesis
      by (simp add: update_blog_def delete_blog_def editorAuth_def)
  qed
qed

text \<open>The second editor of the sample store, on the first editor's post.\<close>

theorem C8_forbidden_witness:
  "find (\<lambda>b. blog_id b = blog_id post0) (blogs store0) = Some post0 \<and>
   author post0 \<noteq> user_id editor1 \<and> role editor1 \<noteq> ''admin'' \<and>
   update_blog 9000 (Some editor1) (blog_id post0) (body0\<lparr>req_title := Some ''Taken over''\<rparr>) store0 =
     (Inl Forbidden, store0) \<and>
   delete_blog (Some editor1) (blog_id post0) store0 = (Inl Forbidden, store0)"
proof -
  have f: "find (\<lambda>b. blog_id b = blog_id post0) (blogs store0) = Some post0"
    by (simp add: store0_def)
  have a: "author post0 \<noteq> user_id editor1"
    by (simp add: post0_def editor1_def)
  have r: "role editor1 \<noteq> ''admin''"
    by (simp add: editor1_def)
  from f a r C8_forbidden [OF f a r, of 9000 "body0\<lparr>req_title := Some ''Taken over''\<rparr>"]
  show ?thesis by simp
qed

section \<open>Single-record update\<close>

lemma update_blog_InrD:
  assumes "update_blog now caller bid body s = (Inr b', s')"
  shows "\<exists>u blog blog1.
           editorAuth caller = Inr u \<and> find (\<lambda>b. blog_id b = bid) (blogs s) = Some blog \<and>
           (author blog = user_id u \<or> role u = ''admin'') \<and>
           reslug body blog s = Inr blog1 \<and>
           save now (Some blog) (assign_fields now body blog1) s = Some (b', s')"
  using assms
  by (auto simp: update_blog_def split: sum.splits option.splits if_splits)

lemma reslug_InrD:
  assumes "reslug body blog s = Inr blog1"
  shows "\<exists>sl. blog1 = blog\<lparr>slug := sl\<rparr> \<and> (req_title body = None \<longrightarrow> sl = slug blog)"
proof (cases "blog1 = blog")
  case True
  then have "blog1 = blog\<lparr>slug := slug blog\<rparr>" by simp
  then show ?thesis by blast
next
  case False
  with assms obtain t where "req_title body = Some t" and "blog1 = blog\<lparr>slug := toLowerCase (slugify t)\<rparr>"
    by (auto simp: reslug_def Let_def split: option.splits if_splits)
  then show ?thesis by auto
qed

lemma find_replaced:
  assumes "find (\<lambda>b. blog_id b = bid) bs = Some old" and "blog_id b' = bid"
  shows "find (\<lambda>b. blog_id b = bid) (map (\<lambda>x. if blog_id x = blog_id b' then b' else x) bs) = Some b'"
  using assms by (induction bs) (auto split: if_splits)

lemmas given_defs =
  truthy_str_or_def given_or_def given_some_or_def seo_merged_def publishedAt_after_def

lemma update_blog_result:
  assumes upd: "update_blog now caller bid body s = (Inr b', s')"
      and old: "find (\<lambda>b. blog_id b = bid) (blogs s) = Some old"
  shows "\<exists>sl. (req_title body = None \<longrightarrow> sl = slug old) \<and>
           b' = pre_save now (truthy_str_or id (req_content body) (content old) \<noteq> content old)
                  (assign_fields now body (old\<lparr>slug := sl\<rparr>)) \<and>
           blogs s' = map (\<lambda>x. if blog_id x = blog_id b' then b' else x) (blogs s) \<and>
           users s' = users s"
proof -
  from update_blog_InrD [OF upd] old obtain u blog1 where
    r: "reslug body old s = Inr blog1" and
    sv: "save now (Some old) (assign_fields now body blog1) s = Some (b', s')"
    by auto
  from reslug_InrD [OF r] obtain sl where b1: "blog1 = old\<lparr>slug := sl\<rparr>"
    and sl: "req_title body = None \<longrightarrow> sl = slug old" by (elim exE conjE)
  have c: "content (assign_fields now body (old\<lparr>slug := sl\<rparr>)) =
      truthy_str_or id (req_content body) (content old)"
    by (simp add: assign_fields_eq)
  from save_SomeD [OF sv [unfolded b1]] have
    "b' = pre_save now (isModified_content (Some old) (assign_fields now body (old\<lparr>slug := sl\<rparr>)))
           (assign_fields now body (old\<lparr>slug := sl\<rparr>))" and
    "users s' = users s" and
    "blogs s' = map (\<lambda>x. if blog_id x = blog_id b' then b' else x) (blogs s)"
    by simp_all
  with c sl show ?thesis
    unfolding isModified_content_def by (intro exI [of _ sl]) simp
qed

lemma find_SomeD: "find P xs = Some x \<Longrightarrow> P x \<and> x \<in> set xs"
  by (induction xs) (auto split: if_splits)

text \<open>
  Claim C6. After a successful update of the post \<open>old\<close>, every field whose entry is absent
  from the request body has the value it had in \<open>old\<close> (with the title also the slug, with
  the content also the reading time, with the status also the publication date), and a
  supplied SEO block is merged into the old one: keys it does not have keep their old
  values, keys it has take the supplied ones. The record returned is the record stored.
\<close>

theorem C6_partial_update:
  assumes upd: "update_blog now caller bid body s = (Inr b', s')"
      and old: "find (\<lambda>b. blog_id b = bid) (blogs s) = Some old"
  shows "(req_title body = None \<longrightarrow> title b' = title old \<and> slug b' = slug old) \<and>
         (req_content body = None \<longrightarrow> content b' = content old \<and> readingTime b' = readingTime old) \<and>
         (req_excerpt body = None \<longrightarrow> excerpt b' = excerpt old) \<and>
         (req_category body = None \<longrightarrow> category b' = category old) \<and>
         (req_tags body = None \<longrightarrow> tags b' = tags old) \<and>
         (req_location body = None \<longrightarrow> location b' = location old) \<and>
         (req_seo body = None \<longrightarrow> seo b' = seo old) \<and>
         (req_featuredImage body = None \<longrightarrow> featuredImage b' = featuredImage old) \<and>
         (req_images body = None \<longrightarrow> images b' = images old) \<and>
         (req_status body = None \<longrightarrow> status b' = status old \<and> publishedAt b' = publishedAt old) \<and>
         (req_featured body = None \<longrightarrow> featured b' = featured old) \<and>
         (req_scheduledAt body = None \<longrightarrow> scheduledAt b' = scheduledAt old) \<and>
         (\<forall>m. req_seo body = Some m \<longrightarrow>
            seo b' = seo old ++ m \<and>
            (\<forall>k. k \<notin> dom m \<longrightarrow> seo b' k = seo old k) \<and>
            (\<forall>k v. m k = Some v \<longrightarrow> seo b' k = Some v)) \<and>
         blog_id b' = blog_id old \<and> author b' = author old \<and> stats b' = stats old \<and>
         createdAt b' = createdAt old \<and>
         find (\<lambda>b. blog_id b = bid) (blogs s') = Some b' \<and> users s' = users s"
proof -
  from update_blog_result [OF upd old] obtain sl where
    sl: "req_title body = None \<longrightarrow> sl = slug old" and
    b': "b' = pre_save now (truthy_str_or id (req_content body) (content old) \<noteq> content old)
                  (assign_fields now body (old\<lparr>slug := sl\<rparr>))" and
    bs: "blogs s' = map (\<lambda>x. if blog_id x = blog_id b' then b' else x) (blogs s)" and
    us: "users s' = users s"
    by (elim exE conjE)
  from old have oid: "blog_id old = bid"
    by (rule find_SomeD [THEN conjunct1])
  have id': "blog_id b' = bid"
    by (simp add: b' pre_save_eq assign_fields_eq oid)
  have stored: "find (\<lambda>b. blog_id b = bid) (blogs s') = Some b'"
    unfolding bs using old id' by (rule find_replaced)
  have t: "req_title body = None \<longrightarrow> title b' = title old \<and> slug b' = slug old"
    using sl by (simp add: b' pre_save_eq assign_fields_eq given_defs)
  have c: "req_content body = None \<longrightarrow> content b' = content old \<and> readingTime b' = readingTime old"
    by (simp add: b' pre_save_eq assign_fields_eq given_defs)
  have e: "req_excerpt body = None \<longrightarrow> excerpt b' = excerpt old"
    by (simp add: b' pre_save_eq assign_fields_eq given_defs)
  have ca: "req_category body = None \<longrightarrow> category b' = category old"
    by (simp add: b' pre_save_eq assign_fields_eq given_defs)
  have ta: "req_tags body = None \<longrightarrow> tags b' = tags old"
    by (simp add: b' pre_save_eq assign_fields_eq given_defs)
  have lo: "req_location body = None \<longrightarrow> location b' = location old"
    by (simp add: b' pre_save_eq assign_fields_eq given_defs)
  have se: "req_seo body = None \<longrightarrow> seo b' = seo old"
    by (simp add: b' pre_save_eq assign_fields_eq given_defs)
  have fi: "req_featuredImage body = None \<longrightarrow> featuredImage b' = featuredImage old"
    by (simp add: b' pre_save_eq assign_fields_eq given_defs)
  have im: "req_images body = None \<longrightarrow> images b' = images old"
    by (simp add: b' pre_save_eq assign_fields_eq given_defs)
  have st: "req_status body = None \<longrightarrow> status b' = status old \<and> publishedAt b' = publishedAt old"
    by (simp add: b' pre_save_eq assign_fields_eq given_defs)
  have fe: "req_featured body = None \<longrightarrow> featured b' = featured old"
    by (simp add: b' pre_save_eq assign_fields_eq given_defs)
  have sc: "req_scheduledAt body = None \<longrightarrow> scheduledAt b' = scheduledAt old"
    by (simp add: b' pre_save_eq assign_fields_eq given_defs)
  have merge: "\<forall>m. req_seo body = Some m \<longrightarrow>
            seo b' = seo old ++ m \<and>
            (\<forall>k. k \<notin> dom m \<longrightarrow> seo b' k = seo old k) \<and>
            (\<forall>k v. m k = Some v \<longrightarrow> seo b' k = Some v)"
  proof (intro allI impI)
    fix m
    assume m: "req_seo body = Some m"
    then have eq: "seo b' = seo old ++ m"
      by (simp add: b' pre_save_eq assign_fields_eq given_defs)
    have "\<forall>k. k \<notin> dom m \<longrightarrow> (seo old ++ m) k = seo old k"
      by (simp add: map_add_dom_app_simps)
    moreover have "\<forall>k v. m k = Some v \<longrightarrow> (seo old ++ m) k = Some v"
      by (simp add: map_add_Some_iff)
    ultimately show "seo b' = seo old ++ m \<and>
            (\<forall>k. k \<notin> dom m \<longrightarrow> seo b' k = seo old k) \<and>
            (\<forall>k v. m k = Some v \<longrightarrow> seo b' k = Some v)"
      using eq by simp
  qed
  have r1: "blog_id b' = blog_id old"
    by (simp add: b' pre_save_eq assign_fields_eq)
  have r2: "author b' = author old"
    by (simp add: b' pre_save_eq assign_fields_eq)
  have r3: "stats b' = stats old"
    by (simp add: b' pre_save_eq assign_fields_eq)
  have r4: "createdAt b' = createdAt old"
    by (simp add: b' pre_save_eq assign_fields_eq)
  show ?thesis
    by (intro conjI t c e ca ta lo se fi im st fe sc merge r1 r2 r3 r4 stored us)
qed

lemma schema_valid_post0: "schema_valid post0"
  by (simp add: schema_valid_def post0_def categories_def statuses_def)

lemma find_post0: "find (\<lambda>b. blog_id b = blog_id post0) (blogs store0) = Some post0"
  by (simp add: store0_def)

lemma replace_post0:
  "map (\<lambda>x. if blog_id x = blog_id post0 then b else x) (blogs store0) = [b, post1]"
  by (simp add: store0_def post0_def post1_def)

lemma owner_post0: "author post0 = user_id editor0"
  by (simp add: post0_def editor0_def)

text \<open>
  The owner's update of the sample post with an empty body, and with a body that supplies
  an excerpt and an SEO block of two keys: the keywords of the old block stay.
\<close>

theorem C6_partial_update_witness:
  "update_blog 9000 (Some editor0) (blog_id post0) body0 store0 =
     (Inr (post0\<lparr>updatedAt := 9000\<rparr>), store0\<lparr>blogs := [post0\<lparr>updatedAt := 9000\<rparr>, post1]\<rparr>) \<and>
   find (\<lambda>b. blog_id b = blog_id post0) (blogs store0) = Some post0 \<and>
   req_title body0 = None \<and> req_content body0 = None \<and> req_excerpt body0 = None \<and>
   req_category body0 = None \<and> req_tags body0 = None \<and> req_location body0 = None \<and>
   req_seo body0 = None \<and> req_featuredImage body0 = None \<and> req_images body0 = None \<and>
   req_status body0 = None \<and> req_featured body0 = None \<and> req_scheduledAt body0 = None \<and>
   title (post0\<lparr>updatedAt := 9000\<rparr>) = title post0 \<and>
   slug (post0\<lparr>updatedAt := 9000\<rparr>) = slug post0 \<and>
   seo (post0\<lparr>updatedAt := 9000\<rparr>) = seo post0 \<and>
   publishedAt (post0\<lparr>updatedAt := 9000\<rparr>) = publishedAt post0 \<and>
   update_blog 9000 (Some editor0) (blog_id post0) body_seo store0 =
     (Inr (post0\<lparr>excerpt := ''rewritten'',
                 seo := seo post0 ++ [MetaDescription \<mapsto> Text ''about'', MetaTitle \<mapsto> Text ''Hi''],
                 updatedAt := 9000\<rparr>),
      store0\<lparr>blogs := [post0\<lparr>excerpt := ''rewritten'',
                 seo := seo post0 ++ [MetaDescription \<mapsto> Text ''about'', MetaTitle \<mapsto> Text ''Hi''],
                 updatedAt := 9000\<rparr>, post1]\<rparr>) \<and>
   req_seo body_seo = Some [MetaDescription \<mapsto> Text ''about'', MetaTitle \<mapsto> Text ''Hi''] \<and>
   seo post0 Keywords = Some (TextList [''a'', ''b'']) \<and>
   seo (post0\<lparr>excerpt := ''rewritten'',
              seo := seo post0 ++ [MetaDescription \<mapsto> Text ''about'', MetaTitle \<mapsto> Text ''Hi''],
              updatedAt := 9000\<rparr>) Keywords = Some (TextList [''a'', ''b'']) \<and>
   seo (post0\<lparr>excerpt := ''rewritten'',
              seo := seo post0 ++ [MetaDescription \<mapsto> Text ''about'', MetaTitle \<mapsto> Text ''Hi''],
              updatedAt := 9000\<rparr>) MetaTitle = Some (Text ''Hi'')"
proof -
  let ?m = "[MetaDescription \<mapsto> Text ''about'', MetaTitle \<mapsto> Text ''Hi'']"
  let ?b1 = "post0\<lparr>updatedAt := 9000\<rparr>"
  let ?b2 = "post0\<lparr>excerpt := ''rewritten'', seo := seo post0 ++ ?m, updatedAt := 9000\<rparr>"
  have none: "req_title body0 = None \<and> req_content body0 = None \<and> req_excerpt body0 = None \<and>
   req_category body0 = None \<and> req_tags body0 = None \<and> req_location body0 = None \<and>
   req_seo body0 = None \<and> req_featuredImage body0 = None \<and> req_images body0 = None \<and>
   req_status body0 = None \<and> req_featured body0 = None \<and> req_scheduledAt body0 = None"
    by (simp add: body0_def)
  have a1: "assign_fields 9000 body0 post0 = post0"
    by (simp add: assign_fields_eq given_defs body0_def)
  have a2: "assign_fields 9000 body_seo post0 = post0\<lparr>excerpt := ''rewritten'', seo := seo post0 ++ ?m\<rparr>"
    by (simp add: assign_fields_eq given_defs body_seo_def body0_def)
  have v2: "schema_valid (post0\<lparr>excerpt := ''rewritten'', seo := m\<rparr>)" for m
    using schema_valid_post0 by (simp add: schema_valid_def)
  have rs1: "reslug body0 post0 store0 = Inr post0"
    by (simp add: reslug_def body0_def)
  have rs2: "reslug body_seo post0 store0 = Inr post0"
    by (simp add: reslug_def body_seo_def body0_def)
  have u1: "update_blog 9000 (Some editor0) (blog_id post0) body0 store0 =
     (Inr ?b1, store0\<lparr>blogs := [?b1, post1]\<rparr>)"
    by (simp add: update_blog_def editorAuth_editor0 find_post0 owner_post0 rs1 a1 save_def
        schema_valid_post0 isModified_content_def pre_save_eq replace_post0 Let_def)
  have u2: "update_blog 9000 (Some editor0) (blog_id post0) body_seo store0 =
     (Inr ?b2, store0\<lparr>blogs := [?b2, post1]\<rparr>)"
    by (simp add: update_blog_def editorAuth_editor0 find_post0 owner_post0 rs2 a2 save_def
        v2 isModified_content_def pre_save_eq replace_post0 Let_def)
  have m: "req_seo body_seo = Some ?m"
    by (simp add: body_seo_def)
  have k: "seo post0 Keywords = Some (TextList [''a'', ''b''])"
    by (simp add: post0_def)
  note w1 = C6_partial_update [OF u1 find_post0]
  note w2 = C6_partial_update [OF u2 find_post0]
  from none have n1: "req_title body0 = None" and n7: "req_seo body0 = None"
    and n10: "req_status body0 = None"
    by simp_all
  from w1 [THEN conjunct1] n1
  have c1: "title ?b1 = title post0 \<and> slug ?b1 = slug post0"
    by (rule mp)
  from w1 [THEN conjunct2, THEN conjunct2, THEN conjunct2, THEN conjunct2, THEN conjunct2,
      THEN conjunct2, THEN conjunct1] n7
  have c7: "seo ?b1 = seo post0"
    by (rule mp)
  from w1 [THEN conjunct2, THEN conjunct2, THEN conjunct2, THEN conjunct2, THEN conjunct2,
      THEN conjunct2, THEN conjunct2, THEN conjunct2, THEN conjunct2, THEN conjunct1] n10
  have c10: "status ?b1 = status post0 \<and> publishedAt ?b1 = publishedAt post0"
    by (rule mp)
  note mg = w2 [THEN conjunct2, THEN conjunct2, THEN conjunct2, THEN conjunct2, THEN conjunct2,
      THEN conjunct2, THEN conjunct2, THEN conjunct2, THEN conjunct2, THEN conjunct2,
      THEN conjunct2, THEN conjunct2, THEN conjunct1, THEN spec, THEN mp, OF m]
  have "Keywords \<notin> dom ?m" by simp
  with mg [THEN conjunct2, THEN conjunct1, THEN spec]
  have "seo ?b2 Keywords = seo post0 Keywords"
    by (rule mp)
  with k have c2: "seo ?b2 Keywords = Some (TextList [''a'', ''b''])"
    by (simp only:)
  have "?m MetaTitle = Some (Text ''Hi'')" by simp
  with mg [THEN conjunct2, THEN conjunct2, THEN spec, THEN spec]
  have c3: "seo ?b2 MetaTitle = Some (Text ''Hi'')"
    by (rule mp)
  from u1 find_post0 none c1 c7 c10 u2 m k c2 c3 show ?thesis
    by (simp only: simp_thms)
qed

section \<open>The stored posts satisfy the schema\<close>

text \<open>
  Every route keeps the store valid: the routes that save run the validators, and the bulk
  updates write only the statuses \<open>published\<close> and \<open>draft\<close> and the featured flag.
\<close>

lemma schema_valid_pre_save: "schema_valid (pre_save now m b) = schema_valid b"
  by (simp add: pre_save_eq schema_valid_def)

lemma save_keeps_valid:
  assumes "save now orig b s = Some (b', s')" and "store_valid s"
  shows "store_valid s'"
proof -
  from save_SomeD [OF assms(1)] have v: "schema_valid b'"
    and bs: "blogs s' = (case orig of None \<Rightarrow> blogs s @ [b']
                     | Some old \<Rightarrow> map (\<lambda>x. if blog_id x = blog_id b' then b' else x) (blogs s))"
    by (simp_all add: schema_valid_pre_save)
  show ?thesis
  proof (cases orig)
    case None
    with bs v assms(2) show ?thesis by (simp add: store_valid_def)
  next
    case (Some old)
    with bs v assms(2) show ?thesis by (auto simp: store_valid_def list_all_iff)
  qed
qed

lemma save_result:
  assumes "store_valid s" and "\<And>s'. store_valid s' \<Longrightarrow> store_valid (g s')"
  shows "store_valid
     (snd (case save now orig b s of None \<Rightarrow> (Inl e, s) | Some (b', s') \<Rightarrow> (Inr b', g s')))"
proof (cases "save now orig b s")
  case None
  with assms(1) show ?thesis by simp
next
  case (Some r)
  obtain b' s' where r: "r = (b', s')" by (cases r)
  from Some r assms(1) have "store_valid s'" by (auto intro: save_keeps_valid)
  with Some r assms(2) show ?thesis by simp
qed

lemma get_blog_keeps_valid:
  assumes "store_valid s"
  shows "store_valid (snd (get_blog now identifier s))"
proof (cases "find (identifier_query identifier) (blogs s)")
  case None
  with assms show ?thesis by (simp add: get_blog_def)
next
  case (Some blog)
  from save_result [OF assms, of "\<lambda>s'. s'"] Some show ?thesis
    by (simp add: get_blog_def)
qed

lemma create_blog_keeps_valid:
  assumes "store_valid s"
  shows "store_valid (snd (create_blog now newId caller body s))"
proof (cases "editorAuth caller")
  case (Inl e)
  with assms show ?thesis by (simp add: create_blog_def)
next
  case (Inr u)
  let ?slug0 = "slugify (case req_title body of None \<Rightarrow> [] | Some t \<Rightarrow> t)"
  have g: "store_valid (s'\<lparr>users := inc_postsCount (user_id u) 1 (users s')\<rparr>)"
    if "store_valid s'" for s'
    using that by (simp add: store_valid_def)
  show ?thesis
  proof (cases "body_valid body \<and> find (\<lambda>b. slug b = ?slug0) (blogs s) = None")
    case True
    with Inr save_result [OF assms g] show ?thesis
      by (simp add: create_blog_def Let_def)
  next
    case False
    with Inr assms show ?thesis
      by (auto simp: create_blog_def Let_def)
  qed
qed

lemma update_blog_keeps_valid:
  assumes "store_valid s"
  shows "store_valid (snd (update_blog now caller bid body s))"
proof (cases "editorAuth caller")
  case (Inl e)
  with assms show ?thesis by (simp add: update_blog_def)
next
  case (Inr u)
  show ?thesis
  proof (cases "find (\<lambda>b. blog_id b = bid) (blogs s)")
    case None
    with Inr assms show ?thesis by (simp add: update_blog_def)
  next
    case (Some blog)
    show ?thesis
    proof (cases "reslug body blog s")
      case (Inl e)
      with Inr Some assms show ?thesis by (simp add: update_blog_def)
    next
      case r: (Inr blog1)
      have "store_valid (snd (case save now (Some blog) (assign_fields now body blog1) s of
              None \<Rightarrow> (Inl StoreFailure, s) | Some (b', s') \<Rightarrow> (Inr b', s')))"
        using assms by (rule save_result)
      with Inr Some r assms show ?thesis
        by (simp add: update_blog_def)
    qed
  qed
qed

lemma delete_blog_keeps_valid:
  assumes "store_valid s"
  shows "store_valid (snd (delete_blog caller bid s))"
proof -
  have "store_valid (s\<lparr>blogs := filter P (blogs s), users := us\<rparr>)" for P us
    using assms by (simp add: store_valid_def list_all_iff)
  with assms show ?thesis
    by (simp add: delete_blog_def split: sum.splits option.splits)
qed

lemma updateMany_keeps_valid:
  assumes "\<And>b. schema_valid b \<Longrightarrow> schema_valid (upd b)" and "store_valid s"
  shows "store_valid (s\<lparr>blogs := fst (updateMany ids upd (blogs s))\<rparr>)"
  using assms by (auto simp: updateMany_def store_valid_def list_all_iff)

lemma deleteMany_keeps_valid:
  assumes "store_valid s"
  shows "store_valid (s\<lparr>blogs := fst (deleteMany ids (blogs s))\<rparr>)"
  using assms by (simp add: deleteMany_def store_valid_def list_all_iff)

lemma bulk_keeps_valid:
  assumes v: "store_valid s"
  shows "store_valid (snd (bulk now caller action blogIds s))"
proof -
  have p: "schema_valid (b\<lparr>status := ''published'', publishedAt := Some now\<rparr>)"
    if "schema_valid b" for b
    using that by (simp add: schema_valid_def statuses_def)
  have d: "schema_valid (b\<lparr>status := ''draft''\<rparr>)" if "schema_valid b" for b
    using that by (simp add: schema_valid_def statuses_def)
  have f: "schema_valid (b\<lparr>featured := x\<rparr>)" if "schema_valid b" for b x
    using that by (simp add: schema_valid_def)
  note um = updateMany_keeps_valid [OF _ v]
  show ?thesis
    using v um [OF p] um [OF d] um [OF f] deleteMany_keeps_valid [OF v]
    by (simp add: bulk_def split_beta split: sum.splits option.splits)
qed

section \<open>Fetch by identifier\<close>

subsection \<open>The view counter as a Number\<close>






subsection \<open>The lookup and the write\<close>












section \<open>Slug uniqueness\<close>

lemma toLowerCase_slug_char: "is_slug_char c \<Longrightarrow> toLowerCase_char c = c"
  by (auto simp: is_slug_char_def toLowerCase_char_def Let_def)

lemma toLowerCase_slugify: "toLowerCase (slugify t) = slugify t"
  unfolding toLowerCase_def
  by (rule map_idI) (simp add: toLowerCase_slug_char slugify_chars)

lemma create_blog_InrD:
  assumes "create_blog now newId caller body s = (Inr b', s')"
  shows "\<exists>u s1 t. editorAuth caller = Inr u \<and> body_valid body \<and> req_title body = Some t \<and>
           find (\<lambda>b. slug b = slugify t) (blogs s) = None \<and>
           save now None (new_blog now newId (user_id u) (slugify t) body) s = Some (b', s1) \<and>
           s' = s1\<lparr>users := inc_postsCount (user_id u) 1 (users s1)\<rparr>"
proof -
  from assms obtain u where u: "editorAuth caller = Inr u" and bv: "body_valid body"
    by (auto simp: create_blog_def split: sum.splits if_splits)
  from bv obtain t where t: "req_title body = Some t"
    by (auto simp: body_valid_def split: option.splits)
  from assms u bv t show ?thesis
    by (auto simp: create_blog_def Let_def split: option.splits)
qed

lemma slug_new_blog: "slug (new_blog now newId uid (slugify t) body) = slugify t"
  by (simp add: new_blog_def Let_def toLowerCase_slugify)

lemma find_exists: "x \<in> set xs \<Longrightarrow> P x \<Longrightarrow> \<exists>y. find P xs = Some y"
  by (induction xs) auto

lemma find_None_list_all: "list_all (\<lambda>x. P x \<longrightarrow> \<not> Q x) xs \<Longrightarrow> find (\<lambda>x. P x \<and> Q x) xs = None"
  by (induction xs) auto

text \<open>
  Claim C3. After a successful create from the title \<open>t1\<close> the stored post holds exactly
  the slug of \<open>t1\<close>, and a valid create by a permitted caller whose title derives the same
  slug fails with DuplicateSlug and leaves the store as it is. An update whose changed title
  derives a slug held by another post fails with DuplicateSlug and leaves the store as it
  is. A successful update with a changed title stores exactly the slug of the new title (no
  suffix), and an update does not fail with DuplicateSlug when the only posts holding the
  derived slug are the post itself.
\<close>

theorem C3_duplicate_slug:
  "(create_blog now1 id1 caller1 body1 s = (Inr b1, s1) \<and> req_title body1 = Some t1 \<and>
      editorAuth caller2 = Inr u2 \<and> body_valid body2 \<and> req_title body2 = Some t2 \<and>
      slugify t2 = slugify t1 \<longrightarrow>
        slug b1 = slugify t1 \<and> b1 \<in> set (blogs s1) \<and>
        create_blog now2 id2 caller2 body2 s1 = (Inl DuplicateSlug, s1)) \<and>
   (editorAuth caller = Inr u \<and> find (\<lambda>b. blog_id b = bid) (blogs s) = Some blog \<and>
      (author blog = user_id u \<or> role u = ''admin'') \<and>
      req_title body = Some t \<and> t \<noteq> [] \<and> t \<noteq> title blog \<and>
      other \<in> set (blogs s) \<and> slug other = slugify t \<and> blog_id other \<noteq> blog_id blog \<longrightarrow>
        update_blog now caller bid body s = (Inl DuplicateSlug, s)) \<and>
   (update_blog now caller bid body s = (Inr b', s') \<and>
      find (\<lambda>b. blog_id b = bid) (blogs s) = Some blog \<and>
      req_title body = Some t \<and> t \<noteq> [] \<and> t \<noteq> title blog \<longrightarrow>
        slug b' = slugify t) \<and>
   (editorAuth caller = Inr u \<and> find (\<lambda>b. blog_id b = bid) (blogs s) = Some blog \<and>
      req_title body = Some t \<and>
      list_all (\<lambda>x. slug x = slugify t \<longrightarrow> blog_id x = blog_id blog) (blogs s) \<longrightarrow>
        fst (update_blog now caller bid body s) \<noteq> Inl DuplicateSlug)"
proof (intro conjI impI)
  assume a: "create_blog now1 id1 caller1 body1 s = (Inr b1, s1) \<and> req_title body1 = Some t1 \<and>
      editorAuth caller2 = Inr u2 \<and> body_valid body2 \<and> req_title body2 = Some t2 \<and>
      slugify t2 = slugify t1"
  then have c: "create_blog now1 id1 caller1 body1 s = (Inr b1, s1)" by simp
  from create_blog_InrD [OF c] obtain u sa t where
    "editorAuth caller1 = Inr u" and "body_valid body1" and t: "req_title body1 = Some t" and
    "find (\<lambda>b. slug b = slugify t) (blogs s) = None" and
    sv': "save now1 None (new_blog now1 id1 (user_id u) (slugify t) body1) s = Some (b1, sa)" and
    s1: "s1 = sa\<lparr>users := inc_postsCount (user_id u) 1 (users sa)\<rparr>"
    by (elim exE conjE)
  from t a have "t = t1" by simp
  with sv' have
    sv: "save now1 None (new_blog now1 id1 (user_id u) (slugify t1) body1) s = Some (b1, sa)"
    by simp
  from save_SomeD [OF sv] have
    b1: "b1 = pre_save now1 True (new_blog now1 id1 (user_id u) (slugify t1) body1)" and
    bs: "blogs sa = blogs s @ [b1]"
    by (simp_all add: isModified_content_def)
  from b1 show sl: "slug b1 = slugify t1"
    by (simp add: pre_save_eq slug_new_blog)
  from bs s1 show mem: "b1 \<in> set (blogs s1)"
    by simp
  from find_exists [of b1 "blogs s1" "\<lambda>b. slug b = slugify t1", OF mem sl]
  obtain y where "find (\<lambda>b. slug b = slugify t1) (blogs s1) = Some y" ..
  with a show "create_blog now2 id2 caller2 body2 s1 = (Inl DuplicateSlug, s1)"
    by (simp add: create_blog_def)
next
  assume a: "editorAuth caller = Inr u \<and> find (\<lambda>b. blog_id b = bid) (blogs s) = Some blog \<and>
      (author blog = user_id u \<or> role u = ''admin'') \<and>
      req_title body = Some t \<and> t \<noteq> [] \<and> t \<noteq> title blog \<and>
      other \<in> set (blogs s) \<and> slug other = slugify t \<and> blog_id other \<noteq> blog_id blog"
  then have "other \<in> set (blogs s)" and "slug other = slugify t \<and> blog_id other \<noteq> blog_id blog"
    by simp_all
  from find_exists [of other "blogs s" "\<lambda>x. slug x = slugify t \<and> blog_id x \<noteq> blog_id blog", OF this]
  obtain y where "find (\<lambda>x. slug x = slugify t \<and> blog_id x \<noteq> blog_id blog) (blogs s) = Some y" ..
  with a have "reslug body blog s = Inl DuplicateSlug"
    by (simp add: reslug_def)
  with a show "update_blog now caller bid body s = (Inl DuplicateSlug, s)"
    by (auto simp: update_blog_def)
next
  assume a: "update_blog now caller bid body s = (Inr b', s') \<and>
      find (\<lambda>b. blog_id b = bid) (blogs s) = Some blog \<and>
      req_title body = Some t \<and> t \<noteq> [] \<and> t \<noteq> title blog"
  then have upd: "update_blog now caller bid body s = (Inr b', s')" by simp
  from update_blog_InrD [OF upd] a obtain blog1 where
    r: "reslug body blog s = Inr blog1" and
    sv: "save now (Some blog) (assign_fields now body blog1) s = Some (b', s')"
    by auto
  from r a have "slug blog1 = slugify t"
    by (auto simp: reslug_def Let_def toLowerCase_slugify split: option.splits)
  with save_SomeD [OF sv] show "slug b' = slugify t"
    by (simp add: pre_save_eq assign_fields_eq)
next
  assume a: "editorAuth caller = Inr u \<and> find (\<lambda>b. blog_id b = bid) (blogs s) = Some blog \<and>
      req_title body = Some t \<and>
      list_all (\<lambda>x. slug x = slugify t \<longrightarrow> blog_id x = blog_id blog) (blogs s)"
  then have "list_all (\<lambda>x. slug x = slugify t \<longrightarrow> \<not> blog_id x \<noteq> blog_id blog) (blogs s)"
    by simp
  then have "find (\<lambda>x. slug x = slugify t \<and> blog_id x \<noteq> blog_id blog) (blogs s) = None"
    by (rule find_None_list_all)
  with a have "reslug body blog s \<noteq> Inl DuplicateSlug"
    by (simp add: reslug_def)
  with a show "fst (update_blog now caller bid body s) \<noteq> Inl DuplicateSlug"
    by (auto simp: update_blog_def split: sum.splits option.splits)
qed

lemma editorAuth_editor1: "editorAuth (Some editor1) = Inr editor1"
  by (simp add: editorAuth_def gate_def role_rank_def editor1_def)

lemma find_post1: "find (\<lambda>b. blog_id b = blog_id post1) (blogs store0) = Some post1"
  by (simp add: store0_def post0_def post1_def)

lemma owner_post1: "author post1 = user_id editor0"
  by (simp add: post1_def editor0_def)

lemma new_blog_lisbon:
  "pre_save 5000 True
     (new_blog 5000 ''0000000000000000000000b2'' (user_id editor0) ''lisbon-by-tram'' body_lisbon) =
   post2"
proof -
  have "trim ''Lisbon by Tram'' = ''Lisbon by Tram''"
    by (simp add: trim_def is_space_def)
  moreover have "toLowerCase ''lisbon-by-tram'' = ''lisbon-by-tram''"
    by (simp add: toLowerCase_def toLowerCase_char_def)
  moreover have "wordCount ''up the hill'' = 3"
    by (simp add: wordCount_def)
  ultimately show ?thesis
    by (simp add: pre_save_eq new_blog_def body_lisbon_def body0_def post2_def editor0_def
        ceiling_numeral_div)
qed

lemma schema_valid_lisbon:
  "schema_valid
     (new_blog 5000 ''0000000000000000000000b2'' (user_id editor0) ''lisbon-by-tram'' body_lisbon)"
proof -
  have "trim ''Lisbon by Tram'' = ''Lisbon by Tram''"
    by (simp add: trim_def is_space_def)
  moreover have "toLowerCase ''lisbon-by-tram'' = ''lisbon-by-tram''"
    by (simp add: toLowerCase_def toLowerCase_char_def)
  ultimately show ?thesis
    by (simp add: schema_valid_def new_blog_def body_lisbon_def body0_def categories_def
        statuses_def)
qed

text \<open>
  Two creates whose titles both derive \<open>lisbon-by-tram\<close>; an update of the second sample
  post to a title that derives the first one's slug; an update of the first sample post to
  another title with its own slug.
\<close>

theorem C3_duplicate_slug_witness:
  "create_blog 5000 ''0000000000000000000000b2'' (Some editor0) body_lisbon store0 =
     (Inr post2, store1) \<and>
   req_title body_lisbon = Some ''Lisbon by Tram'' \<and>
   editorAuth (Some editor1) = Inr editor1 \<and>
   body_valid (body_lisbon\<lparr>req_title := Some ''LISBON  by tram!!''\<rparr>) \<and>
   slugify ''LISBON  by tram!!'' = slugify ''Lisbon by Tram'' \<and>
   slug post2 = ''lisbon-by-tram'' \<and>
   create_blog 6000 ''0000000000000000000000b3'' (Some editor1)
     (body_lisbon\<lparr>req_title := Some ''LISBON  by tram!!''\<rparr>) store1 = (Inl DuplicateSlug, store1) \<and>
   find (\<lambda>b. blog_id b = blog_id post1) (blogs store0) = Some post1 \<and>
   author post1 = user_id editor0 \<and> ''Hello World!'' \<noteq> title post1 \<and>
   post0 \<in> set (blogs store0) \<and> slug post0 = slugify ''Hello World!'' \<and>
   blog_id post0 \<noteq> blog_id post1 \<and>
   update_blog 9000 (Some editor0) (blog_id post1) (body0\<lparr>req_title := Some ''Hello World!''\<rparr>) store0 =
     (Inl DuplicateSlug, store0) \<and>
   ''Hello, World'' \<noteq> title post0 \<and>
   list_all (\<lambda>x. slug x = slugify ''Hello, World'' \<longrightarrow> blog_id x = blog_id post0) (blogs store0) \<and>
   update_blog 9000 (Some editor0) (blog_id post0) (body0\<lparr>req_title := Some ''Hello, World''\<rparr>) store0 =
     (Inr (post0\<lparr>title := ''Hello, World'', updatedAt := 9000\<rparr>),
      store0\<lparr>blogs := [post0\<lparr>title := ''Hello, World'', updatedAt := 9000\<rparr>, post1]\<rparr>) \<and>
   slug (post0\<lparr>title := ''Hello, World'', updatedAt := 9000\<rparr>) = slugify ''Hello, World'' \<and>
   fst (update_blog 9000 (Some editor0) (blog_id post0) (body0\<lparr>req_title := Some ''Hello, World''\<rparr>)
          store0) \<noteq> Inl DuplicateSlug"
proof -
  let ?body2 = "body_lisbon\<lparr>req_title := Some ''LISBON  by tram!!''\<rparr>"
  let ?bodyD = "body0\<lparr>req_title := Some ''Hello World!''\<rparr>"
  let ?bodyS = "body0\<lparr>req_title := Some ''Hello, World''\<rparr>"
  let ?b' = "post0\<lparr>title := ''Hello, World'', updatedAt := 9000\<rparr>"
  have sl1: "slugify ''Lisbon by Tram'' = ''lisbon-by-tram''"
    by (simp add: string_eval)
  have sl2: "slugify ''LISBON  by tram!!'' = ''lisbon-by-tram''"
    by (simp add: string_eval)
  have sl3: "slugify ''Hello World!'' = ''hello-world''"
    by (simp add: string_eval)
  have sl4: "slugify ''Hello, World'' = ''hello-world''"
    by (simp add: string_eval)
  have t1: "req_title body_lisbon = Some ''Lisbon by Tram''"
    by (simp add: body_lisbon_def)
  have bv1: "body_valid body_lisbon"
    by (simp add: body_valid_def body_lisbon_def body0_def categories_def)
  have bv2: "body_valid ?body2"
    by (simp add: body_valid_def body_lisbon_def body0_def categories_def)
  have nf: "find (\<lambda>b. slug b = ''lisbon-by-tram'') (blogs store0) = None"
    by (simp add: store0_def post0_def post1_def)
  have st: "store0\<lparr>blogs := blogs store0 @ [post2],
              users := inc_postsCount (user_id editor0) 1 (users store0)\<rparr> = store1"
    by (simp add: store0_def store1_def inc_postsCount_def admin0_def editor0_def editor1_def)
  have c1: "create_blog 5000 ''0000000000000000000000b2'' (Some editor0) body_lisbon store0 =
     (Inr post2, store1)"
    by (simp add: create_blog_def editorAuth_editor0 bv1 t1 sl1 nf save_def schema_valid_lisbon
        isModified_content_def new_blog_lisbon Let_def st)
  have p2: "slug post2 = ''lisbon-by-tram''"
    by (simp add: post2_def)
  have d1: "''Hello World!'' \<noteq> title post1" and d2: "''Hello, World'' \<noteq> title post0"
    by (simp_all add: post0_def post1_def)
  have o: "post0 \<in> set (blogs store0)" "slug post0 = slugify ''Hello World!''"
    "blog_id post0 \<noteq> blog_id post1"
    by (simp_all add: store0_def post0_def post1_def sl3)
  have la: "list_all (\<lambda>x. slug x = slugify ''Hello, World'' \<longrightarrow> blog_id x = blog_id post0) (blogs store0)"
    by (simp add: sl4 store0_def post0_def post1_def)
  have tt: "trim ''Hello, World'' = ''Hello, World''"
    by (simp add: trim_def is_space_def)
  have rs: "reslug ?bodyS post0 store0 = Inr post0"
    by (simp add: reslug_def d2 [symmetric] sl4 store0_def post0_def post1_def toLowerCase_def
        toLowerCase_char_def Let_def)
  have af: "assign_fields 9000 ?bodyS post0 = post0\<lparr>title := ''Hello, World''\<rparr>"
    by (simp add: assign_fields_eq given_defs body0_def tt)
  have v: "schema_valid (post0\<lparr>title := ''Hello, World''\<rparr>)"
    by (simp add: schema_valid_def post0_def categories_def statuses_def)
  have u3: "update_blog 9000 (Some editor0) (blog_id post0) ?bodyS store0 =
     (Inr ?b', store0\<lparr>blogs := [?b', post1]\<rparr>)"
    by (simp add: update_blog_def editorAuth_editor0 find_post0 owner_post0 rs af save_def v
        isModified_content_def pre_save_eq replace_post0 Let_def)
  note w1 = C3_duplicate_slug [THEN conjunct1,
      of 5000 "''0000000000000000000000b2''" "Some editor0" body_lisbon store0 post2 store1
         "''Lisbon by Tram''" "Some editor1" editor1 ?body2 "''LISBON  by tram!!''"
         6000 "''0000000000000000000000b3''"]
  have "req_title ?body2 = Some ''LISBON  by tram!!''" by simp
  with w1 c1 t1 editorAuth_editor1 bv2 sl1 sl2
  have r1: "create_blog 6000 ''0000000000000000000000b3'' (Some editor1) ?body2 store1 =
      (Inl DuplicateSlug, store1)"
    by simp
  note w2 = C3_duplicate_slug [THEN conjunct2, THEN conjunct1,
      of "Some editor0" editor0 "blog_id post1" store0 post1 ?bodyD "''Hello World!''" post0 9000]
  have "req_title ?bodyD = Some ''Hello World!''" by simp
  with w2 editorAuth_editor0 find_post1 owner_post1 d1 o
  have r2: "update_blog 9000 (Some editor0) (blog_id post1) ?bodyD store0 = (Inl DuplicateSlug, store0)"
    by simp
  note w3 = C3_duplicate_slug [THEN conjunct2, THEN conjunct2, THEN conjunct1,
      of 9000 "Some editor0" "blog_id post0" ?bodyS store0 ?b' "store0\<lparr>blogs := [?b', post1]\<rparr>"
         post0 "''Hello, World''"]
  have "req_title ?bodyS = Some ''Hello, World''" by simp
  with w3 u3 find_post0 d2
  have r3: "slug ?b' = slugify ''Hello, World''"
    by simp
  note w4 = C3_duplicate_slug [THEN conjunct2, THEN conjunct2, THEN conjunct2,
      of "Some editor0" editor0 "blog_id post0" store0 post0 ?bodyS "''Hello, World''" 9000]
  have "req_title ?bodyS = Some ''Hello, World''" by simp
  with w4 editorAuth_editor0 find_post0 la
  have r4: "fst (update_blog 9000 (Some editor0) (blog_id post0) ?bodyS store0) \<noteq> Inl DuplicateSlug"
    by simp
  from c1 t1 editorAuth_editor1 bv2 sl1 sl2 p2 r1 find_post1 owner_post1 d1 o r2 d2 la u3 r3 r4
  show ?thesis
    by (simp only: simp_thms)
qed

section \<open>Dashboard trend\<close>

lemma set_group_count: "fst ` set (group_count ks) = set ks"
  by (auto simp: group_count_def image_iff)

lemma distinct_group_count: "distinct (map fst (group_count ks))"
  by (simp add: group_count_def comp_def)

lemma group_count_mem: "(k, c) \<in> set (group_count ks) \<Longrightarrow> k \<in> set ks \<and> c = count_list ks k"
  by (auto simp: group_count_def)

lemma count_list_map_filter: "count_list (map f xs) k = length (filter (\<lambda>x. f x = k) xs)"
  by (induction xs) auto

lemma strict_sorted_sort_key:
  assumes "distinct (map f xs)"
  shows "sorted_wrt (<) (map f (sort_key f xs))"
proof -
  from assms have "distinct xs" and "inj_on f (set xs)"
    by (simp_all add: distinct_map)
  then have "distinct (map f (sort_key f xs))"
    by (simp add: distinct_map)
  moreover have "sorted (map f (sort_key f xs))"
    by (rule sorted_sort_key)
  ultimately show ?thesis
    by (simp add: strict_sorted_iff)
qed

text \<open>
  Claim C9. The buckets of the creation trend are in strictly ascending order of their
  (year, month, day) keys, so there is one bucket per day; the days that have a bucket are
  exactly the calendar days of the posts created at or after thirty days before the
  request; each bucket counts the posts of that day created within that window, and the
  count is positive; posts created before the window change nothing in the trend.
\<close>

theorem C9_monthly_trend:
  "sorted_wrt (<) (map fst (monthlyTrend now bs)) \<and>
   set (map fst (monthlyTrend now bs)) =
     (\<lambda>b. utc_ymd (createdAt b)) ` {b \<in> set bs. thirtyDaysAgo now \<le> createdAt b} \<and>
   (\<forall>(k, c) \<in> set (monthlyTrend now bs).
      0 < c \<and>
      c = length (filter (\<lambda>b. thirtyDaysAgo now \<le> createdAt b \<and> utc_ymd (createdAt b) = k) bs)) \<and>
   monthlyTrend now (filter (\<lambda>b. thirtyDaysAgo now \<le> createdAt b) bs) = monthlyTrend now bs \<and>
   thirtyDaysAgo now = now - 2592000000"
proof -
  let ?m = "filter (\<lambda>b. thirtyDaysAgo now \<le> createdAt b) bs"
  let ?ks = "map (\<lambda>b. utc_ymd (createdAt b)) ?m"
  have T: "monthlyTrend now bs = sort_key fst (group_count ?ks)"
    by (simp add: monthlyTrend_def)
  have s: "sorted_wrt (<) (map fst (monthlyTrend now bs))"
    unfolding T by (rule strict_sorted_sort_key) (rule distinct_group_count)
  have "set (map fst (monthlyTrend now bs)) = set ?ks"
    unfolding T by (simp add: set_group_count)
  then have k: "set (map fst (monthlyTrend now bs)) =
     (\<lambda>b. utc_ymd (createdAt b)) ` {b \<in> set bs. thirtyDaysAgo now \<le> createdAt b}"
    by auto
  have c: "\<forall>(k, c) \<in> set (monthlyTrend now bs).
      0 < c \<and>
      c = length (filter (\<lambda>b. thirtyDaysAgo now \<le> createdAt b \<and> utc_ymd (createdAt b) = k) bs)"
  proof (intro ballI, clarify)
    fix k c
    assume "(k, c) \<in> set (monthlyTrend now bs)"
    then have "(k, c) \<in> set (group_count ?ks)"
      by (simp add: T)
    then have "k \<in> set ?ks \<and> c = count_list ?ks k"
      by (rule group_count_mem)
    then have mem: "k \<in> set ?ks" and cnt: "c = count_list ?ks k"
      by (rule conjunct1, rule conjunct2)
    from mem have "count_list ?ks k \<noteq> 0"
      by (simp only: count_list_0_iff not_not)
    with cnt have "0 < c"
      by simp
    moreover have "c = length (filter (\<lambda>b. thirtyDaysAgo now \<le> createdAt b \<and> utc_ymd (createdAt b) = k) bs)"
      by (simp add: cnt count_list_map_filter conj_commute)
    ultimately show "0 < c \<and>
      c = length (filter (\<lambda>b. thirtyDaysAgo now \<le> createdAt b \<and> utc_ymd (createdAt b) = k) bs)"
      by simp
  qed
  have f: "monthlyTrend now ?m = monthlyTrend now bs"
    by (simp add: monthlyTrend_def)
  have d: "thirtyDaysAgo now = now - 2592000000"
    by (simp add: thirtyDaysAgo_def)
  from s k c f d show ?thesis
    by (intro conjI)
qed

lemma ymd_eval:
  "utc_ymd 3024000000 = (1970, 2, 5)" "utc_ymd 1728000000 = (1970, 1, 21)"
  "utc_ymd 432000000 = (1970, 1, 6)" "utc_ymd 914400000 = (1970, 1, 11)"
  "utc_ymd 1731600000 = (1970, 1, 21)" "utc_ymd 900000000 = (1970, 1, 11)"
  by code_simp+

lemma trend_eval:
  "monthlyTrend 3499200000 trend_posts = [((1970, 1, 11), 1), ((1970, 1, 21), 2), ((1970, 2, 5), 1)]"
  by (simp add: monthlyTrend_def thirtyDaysAgo_def trend_posts_def group_count_def ymd_eval)

text \<open>
  Six posts in store order: three days within the window, a post of 6 January before it,
  and two posts of 11 January, the day the window starts at noon, of which the one at 10:00
  is outside.
\<close>

theorem C9_monthly_trend_witness:
  "monthlyTrend 3499200000 trend_posts = [((1970, 1, 11), 1), ((1970, 1, 21), 2), ((1970, 2, 5), 1)] \<and>
   thirtyDaysAgo 3499200000 = 907200000 \<and>
   map createdAt trend_posts = [3024000000, 1728000000, 432000000, 914400000, 1731600000, 900000000] \<and>
   sorted_wrt (<) (map fst (monthlyTrend 3499200000 trend_posts)) \<and>
   (1970, 1, 6) \<notin> set (map fst (monthlyTrend 3499200000 trend_posts)) \<and>
   length (filter (\<lambda>b. utc_ymd (createdAt b) = (1970, 1, 11)) trend_posts) = 2 \<and>
   length (filter (\<lambda>b. thirtyDaysAgo 3499200000 \<le> createdAt b \<and>
                         utc_ymd (createdAt b) = (1970, 1, 11)) trend_posts) = 1"
proof -
  note w = C9_monthly_trend [of 3499200000 trend_posts]
  have e: "monthlyTrend 3499200000 trend_posts =
      [((1970, 1, 11), 1), ((1970, 1, 21), 2), ((1970, 2, 5), 1)]"
    by (rule trend_eval)
  have d: "thirtyDaysAgo 3499200000 = 907200000"
    by (simp add: thirtyDaysAgo_def)
  have c: "map createdAt trend_posts =
      [3024000000, 1728000000, 432000000, 914400000, 1731600000, 900000000]"
    by (simp add: trend_posts_def)
  from w have s: "sorted_wrt (<) (map fst (monthlyTrend 3499200000 trend_posts))"
    by (rule conjunct1)
  have n: "(1970, 1, 6) \<notin> set (map fst (monthlyTrend 3499200000 trend_posts))"
    by (simp add: e)
  have "((1970, 1, 11), 1) \<in> set (monthlyTrend 3499200000 trend_posts)"
    by (simp add: e)
  with w [THEN conjunct2, THEN conjunct2, THEN conjunct1]
  have "(1::nat) = length (filter (\<lambda>b. thirtyDaysAgo 3499200000 \<le> createdAt b \<and>
                         utc_ymd (createdAt b) = (1970, 1, 11)) trend_posts)"
    by auto
  then have k: "length (filter (\<lambda>b. thirtyDaysAgo 3499200000 \<le> createdAt b \<and>
                         utc_ymd (createdAt b) = (1970, 1, 11)) trend_posts) = 1"
    by simp
  have a: "length (filter (\<lambda>b. utc_ymd (createdAt b) = (1970, 1, 11)) trend_posts) = 2"
    by (simp add: trend_posts_def ymd_eval)
  from e d c s n a k show ?thesis
    by (intro conjI)
qed

end
